theory Spec2Isabelle
  imports Main "HOL-Library.Multiset" "HOL-Library.AList"
begin

section \<open>Data model (src/db/schema.ts)\<close>

text \<open>
  \<^verbatim>\<open>StatusEnum\<close> and \<^verbatim>\<open>JobStatusEnum\<close> are closed string unions in the source;
  they are datatypes here, with the stored text given by \<open>status_text\<close>.
\<close>

datatype Status = PENDING | ALLOWED | REJECTED

fun status_text :: "Status \<Rightarrow> string" where
  "status_text PENDING = ''pending''"
| "status_text ALLOWED = ''allowed''"
| "status_text REJECTED = ''rejected''"

datatype JobStatus = JOB_PENDING | JOB_COMPLETED | JOB_FAILED

text \<open>Rows of \<^verbatim>\<open>managed_group\<close>, \<^verbatim>\<open>managed_user\<close> and \<^verbatim>\<open>job\<close>. Timestamps are clock
  readings in whole seconds, as the integer columns in mode \<^verbatim>\<open>timestamp\<close> keep them.\<close>

record ManagedGroup =
  g_id :: int
  g_telegramId :: string
  g_title :: string
  g_status :: Status
  g_createdAt :: nat
  g_updatedAt :: nat

record ManagedUser =
  u_id :: int
  u_telegramId :: string
  u_name :: string
  u_username :: "string option"
  u_status :: Status
  u_patToken :: "string option"
  u_createdAt :: nat
  u_updatedAt :: nat

record Job =
  j_id :: int
  j_description :: string
  j_payload :: "string option"
  j_dueAt :: nat
  j_executedAt :: "nat option"
  j_status :: JobStatus
  j_createdAt :: nat

text \<open>
  The insert types \<^verbatim>\<open>NewManagedGroup\<close> and \<^verbatim>\<open>NewManagedUser\<close>: columns with a default
  (\<^verbatim>\<open>status\<close>) or nullable columns are optional.
\<close>

record NewManagedGroup =
  ng_telegramId :: string
  ng_title :: string
  ng_status :: "Status option"

record NewManagedUser =
  nu_telegramId :: string
  nu_name :: string
  nu_username :: "string option"
  nu_status :: "Status option"

text \<open>
  The database: the two identity tables, the autoincrement counters of their primary
  keys, and whether the store can be reached at all. A statement on an unreachable
  store throws \<open>StoreUnavailable\<close>; an insert of a \<^verbatim>\<open>telegram_id\<close> already present
  throws \<open>UniqueViolation\<close> (the column is \<^verbatim>\<open>.notNull().unique()\<close>).
\<close>

datatype error = StoreUnavailable | UniqueViolation

record Db =
  available :: bool
  managedGroup :: "ManagedGroup list"
  managedUser :: "ManagedUser list"
  groupSeq :: int
  userSeq :: int

section \<open>Strings of the host language\<close>

text \<open>\<^verbatim>\<open>Number.prototype.toString()\<close> on an integer: decimal digits, a minus sign when negative
  (chat and user ids are far below the size from which the host prints an exponent).\<close>

definition digit_char :: "nat \<Rightarrow> char" where
  "digit_char d = char_of (48 + d)"

function nat_toString :: "nat \<Rightarrow> string" where
  "nat_toString n =
     (if n < 10 then [digit_char n] else nat_toString (n div 10) @ [digit_char (n mod 10)])"
  by pat_completeness auto
termination
  by (relation "measure (\<lambda>n. n)") auto

declare nat_toString.simps [simp del]

definition toString :: "int \<Rightarrow> string" where
  "toString i = (if i < 0 then CHR ''-'' # nat_toString (nat (- i)) else nat_toString (nat i))"

text \<open>Truthiness of an optional string: \<^verbatim>\<open>undefined\<close>, \<^verbatim>\<open>null\<close> and \<^verbatim>\<open>""\<close> are falsy.\<close>

fun truthy :: "string option \<Rightarrow> bool" where
  "truthy None = False"
| "truthy (Some s) = (s \<noteq> [])"

text \<open>\<^verbatim>\<open>a || b\<close> on an optional string with a string default.\<close>

definition or_default :: "string option \<Rightarrow> string \<Rightarrow> string" where
  "or_default x d = (if truthy x then the x else d)"

text \<open>\<^verbatim>\<open>String.prototype.split(sep)\<close> for a one-character separator.\<close>

fun split :: "char \<Rightarrow> string \<Rightarrow> string list" where
  "split c [] = [[]]"
| "split c (x # xs) =
     (if x = c then [] # split c xs
      else (case split c xs of [] \<Rightarrow> [[x]] | p # ps \<Rightarrow> (x # p) # ps))"

text \<open>\<^verbatim>\<open>arr[i]\<close>: \<^verbatim>\<open>undefined\<close> out of range.\<close>

definition at_index :: "'a list \<Rightarrow> nat \<Rightarrow> 'a option" where
  "at_index xs i = (if i < length xs then Some (xs ! i) else None)"

text \<open>
  \<^verbatim>\<open>parseInt(s, 10)\<close>: leading white space is skipped, one sign is accepted, the longest
  run of decimal digits is read; \<^verbatim>\<open>NaN\<close> (here \<open>None\<close>) when there is no digit.
\<close>

definition is_digit :: "char \<Rightarrow> bool" where
  "is_digit c = ((48::nat) \<le> of_char c \<and> of_char c \<le> (57::nat))"

definition is_space :: "char \<Rightarrow> bool" where
  "is_space c = ((of_char c :: nat) \<in> {9, 10, 11, 12, 13, 32})"

definition digits_value :: "string \<Rightarrow> nat" where
  "digits_value ds = foldl (\<lambda>acc c. 10 * acc + (of_char c - 48)) 0 ds"

definition parseInt :: "string \<Rightarrow> int option" where
  "parseInt s =
     (let t = dropWhile is_space s;
          neg = (case t of [] \<Rightarrow> False | c # _ \<Rightarrow> c = CHR ''-'');
          u = (case t of [] \<Rightarrow> [] | c # r \<Rightarrow> if c = CHR ''-'' \<or> c = CHR ''+'' then r else t);
          ds = takeWhile is_digit u
      in if ds = [] then None
         else Some (if neg then - int (digits_value ds) else int (digits_value ds)))"

section \<open>Queries on the user table (src/db/queries/user.ts)\<close>

definition findUserByTelegramId :: "string \<Rightarrow> Db \<Rightarrow> error + ManagedUser option" where
  "findUserByTelegramId telegramId db =
     (if \<not> available db then Inl StoreUnavailable
      else Inr (find (\<lambda>u. u_telegramId u = telegramId) (managedUser db)))"

definition findUserById :: "int \<Rightarrow> Db \<Rightarrow> error + ManagedUser option" where
  "findUserById i db =
     (if \<not> available db then Inl StoreUnavailable
      else Inr (find (\<lambda>u. u_id u = i) (managedUser db)))"

text \<open>
  \<^verbatim>\<open>createUser\<close>: the insert gets the next autoincrement id, the default status
  \<^verbatim>\<open>pending\<close> when none is given, and both timestamps from the clock.
\<close>

definition createUser :: "NewManagedUser \<Rightarrow> nat \<Rightarrow> Db \<Rightarrow> error + (ManagedUser \<times> Db)" where
  "createUser user now db =
     (if \<not> available db then Inl StoreUnavailable
      else if \<exists>u \<in> set (managedUser db). u_telegramId u = nu_telegramId user
      then Inl UniqueViolation
      else
        (let row = \<lparr> u_id = userSeq db + 1,
                      u_telegramId = nu_telegramId user,
                      u_name = nu_name user,
                      u_username = nu_username user,
                      u_status = (case nu_status user of None \<Rightarrow> PENDING | Some s \<Rightarrow> s),
                      u_patToken = None,
                      u_createdAt = now,
                      u_updatedAt = now \<rparr>
         in Inr (row, db\<lparr> managedUser := managedUser db @ [row], userSeq := userSeq db + 1 \<rparr>)))"

text \<open>\<^verbatim>\<open>updateUserStatus\<close>: an unconditional UPDATE of status and \<^verbatim>\<open>updatedAt\<close> by primary key.\<close>

definition updateUserStatus :: "int \<Rightarrow> Status \<Rightarrow> nat \<Rightarrow> Db \<Rightarrow> error + (ManagedUser option \<times> Db)" where
  "updateUserStatus i st now db =
     (if \<not> available db then Inl StoreUnavailable
      else
        (let rows = map (\<lambda>u. if u_id u = i then u\<lparr> u_status := st, u_updatedAt := now \<rparr> else u)
                        (managedUser db)
         in Inr (find (\<lambda>u. u_id u = i) rows, db\<lparr> managedUser := rows \<rparr>)))"

text \<open>
  \<^verbatim>\<open>updateUserByTelegramId\<close> takes a \<^verbatim>\<open>Partial<NewManagedUser>\<close>; the fields a caller may
  set are options here. (No caller in the sources passes \<^verbatim>\<open>telegramId\<close>, which is left
  out of the patch.)
\<close>

record UserPatch =
  p_name :: "string option"
  p_username :: "string option option"
  p_status :: "Status option"

definition apply_patch :: "UserPatch \<Rightarrow> nat \<Rightarrow> ManagedUser \<Rightarrow> ManagedUser" where
  "apply_patch d now u =
     u\<lparr> u_name := (case p_name d of None \<Rightarrow> u_name u | Some n \<Rightarrow> n),
        u_username := (case p_username d of None \<Rightarrow> u_username u | Some n \<Rightarrow> n),
        u_status := (case p_status d of None \<Rightarrow> u_status u | Some s \<Rightarrow> s),
        u_updatedAt := now \<rparr>"

definition updateUserByTelegramId ::
  "string \<Rightarrow> UserPatch \<Rightarrow> nat \<Rightarrow> Db \<Rightarrow> error + (ManagedUser option \<times> Db)" where
  "updateUserByTelegramId telegramId d now db =
     (if \<not> available db then Inl StoreUnavailable
      else
        (let rows = map (\<lambda>u. if u_telegramId u = telegramId then apply_patch d now u else u)
                        (managedUser db)
         in Inr (find (\<lambda>u. u_telegramId u = telegramId) rows, db\<lparr> managedUser := rows \<rparr>)))"

definition deleteUser :: "int \<Rightarrow> Db \<Rightarrow> error + Db" where
  "deleteUser i db =
     (if \<not> available db then Inl StoreUnavailable
      else Inr (db\<lparr> managedUser := filter (\<lambda>u. u_id u \<noteq> i) (managedUser db) \<rparr>))"

text \<open>
  \<^verbatim>\<open>getAllUsersGroupedByStatus\<close>. The select is ordered by the status text, ascending
  (\<open>status_rank\<close> is the order of the three texts); the result object has its three
  keys from the start, and the loop pushes each row to the list of its status.
\<close>

fun status_rank :: "Status \<Rightarrow> nat" where
  "status_rank ALLOWED = 0"
| "status_rank PENDING = 1"
| "status_rank REJECTED = 2"

definition push :: "string \<Rightarrow> 'a \<Rightarrow> (string \<times> 'a list) list \<Rightarrow> (string \<times> 'a list) list" where
  "push k v grouped = map (\<lambda>(k', l). if k' = k then (k', l @ [v]) else (k', l)) grouped"

definition group_step :: "ManagedUser \<Rightarrow> (string \<times> ManagedUser list) list \<Rightarrow> (string \<times> ManagedUser list) list" where
  "group_step user grouped =
     (if u_status user = ALLOWED then push ''allowed'' user grouped
      else if u_status user = PENDING then push ''pending'' user grouped
      else if u_status user = REJECTED then push ''rejected'' user grouped
      else grouped)"

definition getAllUsersGroupedByStatus :: "Db \<Rightarrow> error + (string \<times> ManagedUser list) list" where
  "getAllUsersGroupedByStatus db =
     (if \<not> available db then Inl StoreUnavailable
      else
        (let allUsers = sort_key (\<lambda>u. status_rank (u_status u)) (managedUser db)
         in Inr (fold group_step allUsers
                   [(''allowed'', []), (''pending'', []), (''rejected'', [])])))"

text \<open>\<^verbatim>\<open>grouped.allowed\<close>, \<^verbatim>\<open>grouped.pending\<close>, \<^verbatim>\<open>grouped.rejected\<close>.\<close>

definition keyed :: "(string \<times> 'a list) list \<Rightarrow> string \<Rightarrow> 'a list" where
  "keyed grouped k = (case map_of grouped k of None \<Rightarrow> [] | Some l \<Rightarrow> l)"


section \<open>Queries on the group table (unnamed/part_006)\<close>

definition findGroupByTelegramId :: "string \<Rightarrow> Db \<Rightarrow> error + ManagedGroup option" where
  "findGroupByTelegramId telegramId db =
     (if \<not> available db then Inl StoreUnavailable
      else Inr (find (\<lambda>g. g_telegramId g = telegramId) (managedGroup db)))"

definition createGroup :: "NewManagedGroup \<Rightarrow> nat \<Rightarrow> Db \<Rightarrow> error + (ManagedGroup \<times> Db)" where
  "createGroup grp now db =
     (if \<not> available db then Inl StoreUnavailable
      else if \<exists>g \<in> set (managedGroup db). g_telegramId g = ng_telegramId grp
      then Inl UniqueViolation
      else
        (let row = \<lparr> g_id = groupSeq db + 1,
                      g_telegramId = ng_telegramId grp,
                      g_title = ng_title grp,
                      g_status = (case ng_status grp of None \<Rightarrow> PENDING | Some s \<Rightarrow> s),
                      g_createdAt = now,
                      g_updatedAt = now \<rparr>
         in Inr (row, db\<lparr> managedGroup := managedGroup db @ [row], groupSeq := groupSeq db + 1 \<rparr>)))"

section \<open>Updates, replies and what a handler leaves behind\<close>

text \<open>
  The incoming update as the handlers read it: \<^verbatim>\<open>ctx.chat\<close>, \<^verbatim>\<open>ctx.from\<close>,
  \<^verbatim>\<open>ctx.callbackQuery.data\<close> and \<^verbatim>\<open>ctx.message.text\<close>, each possibly absent.
\<close>

datatype ChatType = Private | Group | Supergroup | Channel

record Chat =
  c_id :: int
  c_type :: ChatType
  c_title :: "string option"

record Sender =
  f_id :: int
  f_first_name :: string
  f_username :: "string option"

record Context =
  ctx_chat :: "Chat option"
  ctx_from :: "Sender option"
  ctx_callbackData :: "string option"
  ctx_messageText :: "string option"

text \<open>
  Texts shown to people carry emoji and Persian; each distinct template of the source is
  one constructor, with the interpolated values as its arguments, so two texts are equal
  exactly when the rendered strings of one template are built from equal values.
\<close>

datatype Text =
    Unauthorized_super_admin
  | New_Group_Request string string string "string option" "string option"
  | New_User_Request string "string option" string
  | Unauthorized
  | Error_processing_request
  | User_not_found
  | User_Approved string string
  | User_approved
  | User_Rejected string string
  | User_rejected
  | Usage_removeuser
  | Invalid_user_ID
  | User_with_ID_not_found int
  | User_has_been_removed string int
  | Error_removing_user
  | Panel_cancelled
  | Panel_main
  | Add_user_prompt
  | Invalid_id_fa
  | Users_list_fa "(string \<times> string) list" "(string \<times> string) list" "(string \<times> string) list"
  | Error_processing_request_reply
  | User_not_found_fa
  | User_approved_fa string string
  | User_rejected_fa string string
  | User_removed_fa string string

datatype Label =
    Approve_label
  | Reject_label
  | Approve_fa
  | Reject_fa
  | Remove_fa
  | Users_fa
  | Add_user_fa
  | Cancel_fa
  | Back_fa
  | User_info Status string

record Button =
  b_text :: Label
  b_callback_data :: string

datatype effect =
    Next
  | Reply Text "Button list list"
  | SendMessage string Text "Button list list"
  | EditMessageText Text "Button list list"
  | AnswerCallbackQuery "Text option" bool
  | ConsoleError string "error option"

text \<open>
  A handler run ends with the store it leaves, the calls it made in order, and the
  exception that escaped it, if one did. (\<^verbatim>\<open>console.log\<close> lines are left out;
  \<^verbatim>\<open>console.error\<close> is kept. Calls to the chat platform are taken to succeed.)
\<close>

record Outcome =
  store :: Db
  effects :: "effect list"
  thrown :: "error option"

definition finish :: "Db \<Rightarrow> effect list \<Rightarrow> Outcome" where
  "finish db es = \<lparr> store = db, effects = es, thrown = None \<rparr>"

definition throw :: "Db \<Rightarrow> effect list \<Rightarrow> error \<Rightarrow> Outcome" where
  "throw db es e = \<lparr> store = db, effects = es, thrown = Some e \<rparr>"

text \<open>\<^verbatim>\<open>`${name}${username ? ` (@${username})` : ""}`\<close>, used by every handler that names a user.\<close>

definition with_username :: "string \<Rightarrow> string option \<Rightarrow> string" where
  "with_username nm un =
     (case un of None \<Rightarrow> nm
      | Some u \<Rightarrow> if u = [] then nm else nm @ '' (@'' @ u @ '')'')"

section \<open>Middleware helpers (src/bot/middleware.ts, unnamed/part_007)\<close>

definition getUserTelegramId :: "Context \<Rightarrow> string option" where
  "getUserTelegramId ctx = map_option (\<lambda>f. toString (f_id f)) (ctx_from ctx)"

definition getChatTelegramId :: "Context \<Rightarrow> string option" where
  "getChatTelegramId ctx = map_option (\<lambda>c. toString (c_id c)) (ctx_chat ctx)"

definition chat_type :: "Context \<Rightarrow> ChatType option" where
  "chat_type ctx = map_option c_type (ctx_chat ctx)"

definition isAdmin :: "string \<Rightarrow> Context \<Rightarrow> bool" where
  "isAdmin admin ctx = (getUserTelegramId ctx = Some admin)"

text \<open>\<^verbatim>\<open>ctx.from?.first_name || "Unknown"\<close> and \<^verbatim>\<open>ctx.from?.username\<close>.\<close>

definition userName_of :: "Context \<Rightarrow> string" where
  "userName_of ctx = or_default (map_option f_first_name (ctx_from ctx)) ''Unknown''"

definition username_of :: "Context \<Rightarrow> string option" where
  "username_of ctx = (case ctx_from ctx of None \<Rightarrow> None | Some f \<Rightarrow> f_username f)"

text \<open>\<^verbatim>\<open>adminOnly\<close>: the handler behind it runs only in a private chat with the super admin.\<close>

definition adminOnly :: "string \<Rightarrow> Context \<Rightarrow> Db \<Rightarrow> (Context \<Rightarrow> Db \<Rightarrow> Outcome) \<Rightarrow> Outcome" where
  "adminOnly admin ctx db next_handler =
     (if chat_type ctx \<noteq> Some Private then finish db []
      else if \<not> isAdmin admin ctx then finish db [Reply Unauthorized_super_admin []]
      else next_handler ctx db)"

section \<open>The access gate as it is (src/bot/middleware.ts)\<close>

text \<open>The body of the \<^verbatim>\<open>try\<close> block: the sender is created as allowed, or set to allowed.\<close>

definition accessControl_try :: "nat \<Rightarrow> Context \<Rightarrow> string option \<Rightarrow> Db \<Rightarrow> error + Db" where
  "accessControl_try now ctx userId db =
     (case userId of
        None \<Rightarrow> Inr db
      | Some uid \<Rightarrow>
          if uid = [] then Inr db
          else
            (case findUserByTelegramId uid db of
               Inl e \<Rightarrow> Inl e
             | Inr None \<Rightarrow>
                 (case createUser \<lparr> nu_telegramId = uid, nu_name = userName_of ctx,
                                    nu_username = username_of ctx, nu_status = Some ALLOWED \<rparr> now db of
                    Inl e \<Rightarrow> Inl e
                  | Inr (_, db') \<Rightarrow> Inr db')
             | Inr (Some user) \<Rightarrow>
                 if u_status user \<noteq> ALLOWED
                 then (case updateUserByTelegramId uid
                              \<lparr> p_name = None, p_username = None, p_status = Some ALLOWED \<rparr> now db of
                         Inl e \<Rightarrow> Inl e
                       | Inr (_, db') \<Rightarrow> Inr db')
                 else Inr db))"

definition accessControl :: "nat \<Rightarrow> Context \<Rightarrow> Db \<Rightarrow> Outcome" where
  "accessControl now ctx db =
     (let chatId = getChatTelegramId ctx;
          userId = getUserTelegramId ctx
      in if chat_type ctx = Some Private then finish db [Next]
         else if truthy chatId \<and> (chat_type ctx = Some Group \<or> chat_type ctx = Some Supergroup)
         then (case accessControl_try now ctx userId db of
                 Inl e \<Rightarrow> finish db [ConsoleError ''[AccessControl] Error:'' (Some e), Next]
               | Inr db' \<Rightarrow> finish db' [Next])
         else finish db [Next])"

section \<open>The access gate with discovery (unnamed/part_007)\<close>

definition triggerGroupDiscovery :: "string \<Rightarrow> nat \<Rightarrow> Context \<Rightarrow> string \<Rightarrow> Db \<Rightarrow> Outcome" where
  "triggerGroupDiscovery admin now ctx chatId db =
     (let chatTitle = or_default (case ctx_chat ctx of None \<Rightarrow> None | Some c \<Rightarrow> c_title c)
                                 ''Unknown Group'';
          userId = getUserTelegramId ctx;
          userName = userName_of ctx;
          username = username_of ctx
      in case createGroup \<lparr> ng_telegramId = chatId, ng_title = chatTitle,
                            ng_status = Some PENDING \<rparr> now db of
           Inl e \<Rightarrow> finish db [ConsoleError ''[Group Discovery] Error:'' (Some e)]
         | Inr (_, db1) \<Rightarrow>
             (case (if truthy userId
                    then (case createUser \<lparr> nu_telegramId = the userId, nu_name = userName,
                                            nu_username = username, nu_status = Some PENDING \<rparr>
                                          now db1 of
                            Inl e \<Rightarrow> Inl e
                          | Inr (_, db2) \<Rightarrow> Inr db2)
                    else Inr db1) of
                Inl e \<Rightarrow> finish db1 [ConsoleError ''[Group Discovery] Error:'' (Some e)]
              | Inr db2 \<Rightarrow>
                  if admin = []
                  then finish db2 [ConsoleError ''[Group Discovery] Admin ID not configured'' None]
                  else finish db2
                         [SendMessage admin
                            (New_Group_Request chatTitle chatId userName username userId)
                            [[\<lparr> b_text = Approve_label,
                                b_callback_data = ''approve_group:'' @ chatId \<rparr>,
                              \<lparr> b_text = Reject_label,
                                b_callback_data = ''reject_group:'' @ chatId \<rparr>]]]))"

definition triggerUserDiscovery :: "string \<Rightarrow> nat \<Rightarrow> Context \<Rightarrow> string \<Rightarrow> Db \<Rightarrow> Outcome" where
  "triggerUserDiscovery admin now ctx userId db =
     (let userName = userName_of ctx;
          username = username_of ctx
      in case createUser \<lparr> nu_telegramId = userId, nu_name = userName,
                           nu_username = username, nu_status = Some PENDING \<rparr> now db of
           Inl e \<Rightarrow> finish db [ConsoleError ''[User Discovery] Error:'' (Some e)]
         | Inr (_, db1) \<Rightarrow>
             if admin = []
             then finish db1 [ConsoleError ''[User Discovery] Admin ID not configured'' None]
             else finish db1
                    [SendMessage admin (New_User_Request userName username userId)
                       [[\<lparr> b_text = Approve_label,
                           b_callback_data = ''approve_user:'' @ userId \<rparr>,
                         \<lparr> b_text = Reject_label,
                           b_callback_data = ''reject_user:'' @ userId \<rparr>]]])"

text \<open>
  The gate of part_007. Its two lookups are outside any \<^verbatim>\<open>try\<close>: an unreachable store
  makes the middleware throw.
\<close>

definition accessControl_part_007 :: "string \<Rightarrow> nat \<Rightarrow> Context \<Rightarrow> Db \<Rightarrow> Outcome" where
  "accessControl_part_007 admin now ctx db =
     (let chatId = getChatTelegramId ctx;
          userId = getUserTelegramId ctx
      in if chat_type ctx = Some Private
         then (if isAdmin admin ctx then finish db [Next] else finish db [])
         else if truthy chatId \<and> (chat_type ctx = Some Group \<or> chat_type ctx = Some Supergroup)
         then (case findGroupByTelegramId (the chatId) db of
                 Inl e \<Rightarrow> throw db [] e
               | Inr None \<Rightarrow> triggerGroupDiscovery admin now ctx (the chatId) db
               | Inr (Some grp) \<Rightarrow>
                   if g_status grp \<noteq> ALLOWED then finish db []
                   else if truthy userId
                   then (case findUserByTelegramId (the userId) db of
                           Inl e \<Rightarrow> throw db [] e
                         | Inr None \<Rightarrow> triggerUserDiscovery admin now ctx (the userId) db
                         | Inr (Some user) \<Rightarrow>
                             if u_status user \<noteq> ALLOWED then finish db []
                             else finish db [Next])
                   else finish db [Next])
         else finish db [])"


section \<open>Approval buttons (src/bot/handlers/discovery.ts)\<close>

definition handleApproveUser :: "nat \<Rightarrow> string \<Rightarrow> Db \<Rightarrow> Outcome" where
  "handleApproveUser now telegramId db =
     (case findUserByTelegramId telegramId db of
        Inl e \<Rightarrow> throw db [] e
      | Inr None \<Rightarrow> finish db [AnswerCallbackQuery (Some User_not_found) True]
      | Inr (Some user) \<Rightarrow>
          (case updateUserStatus (u_id user) ALLOWED now db of
             Inl e \<Rightarrow> throw db [] e
           | Inr (_, db') \<Rightarrow>
               finish db'
                 [EditMessageText
                    (User_Approved (with_username (u_name user) (u_username user)) telegramId) [],
                  AnswerCallbackQuery (Some User_approved) False]))"

definition handleRejectUser :: "nat \<Rightarrow> string \<Rightarrow> Db \<Rightarrow> Outcome" where
  "handleRejectUser now telegramId db =
     (case findUserByTelegramId telegramId db of
        Inl e \<Rightarrow> throw db [] e
      | Inr None \<Rightarrow> finish db [AnswerCallbackQuery (Some User_not_found) True]
      | Inr (Some user) \<Rightarrow>
          (case updateUserStatus (u_id user) REJECTED now db of
             Inl e \<Rightarrow> throw db [] e
           | Inr (_, db') \<Rightarrow>
               finish db'
                 [EditMessageText
                    (User_Rejected (with_username (u_name user) (u_username user)) telegramId) [],
                  AnswerCallbackQuery (Some User_rejected) False]))"

text \<open>
  The route \<^verbatim>\<open>/^(approve_user|reject_user):(.+)$/\<close>: one of the two actions, a colon and
  a non-empty rest without a line break.
\<close>

definition no_line_break :: "string \<Rightarrow> bool" where
  "no_line_break r = list_all (\<lambda>c. c \<noteq> CHR 0x0A \<and> c \<noteq> CHR 0x0D) r"

definition discovery_route :: "string \<Rightarrow> bool" where
  "discovery_route d =
     (if take 13 d = ''approve_user:'' then drop 13 d \<noteq> [] \<and> no_line_break (drop 13 d)
      else if take 12 d = ''reject_user:'' then drop 12 d \<noteq> [] \<and> no_line_break (drop 12 d)
      else False)"

text \<open>
  The handler registered by \<^verbatim>\<open>setupDiscoveryHandlers\<close>. An update that does not match
  the route is not handled here; one that matches has a second part after the colon.
\<close>

definition setupDiscoveryHandlers :: "string \<Rightarrow> nat \<Rightarrow> Context \<Rightarrow> Db \<Rightarrow> Outcome" where
  "setupDiscoveryHandlers admin now ctx db =
     (case ctx_callbackData ctx of
        None \<Rightarrow> finish db []
      | Some callbackData \<Rightarrow>
          if \<not> discovery_route callbackData then finish db []
          else if getUserTelegramId ctx \<noteq> Some admin
          then finish db [AnswerCallbackQuery (Some Unauthorized) True]
          else
            (let parts = split (CHR '':'') callbackData;
                 action = at_index parts 0;
                 telegramId = (case at_index parts 1 of None \<Rightarrow> [] | Some t \<Rightarrow> t);
                 r = (if action = Some ''approve_user'' then handleApproveUser now telegramId db
                      else if action = Some ''reject_user'' then handleRejectUser now telegramId db
                      else finish db [])
             in case thrown r of
                  None \<Rightarrow> r
                | Some e \<Rightarrow>
                    finish (store r)
                      (effects r @ [ConsoleError ''[Discovery Handler] Error:'' (Some e),
                                    AnswerCallbackQuery (Some Error_processing_request) True])))"

section \<open>Admin commands, first form (src/bot/handlers/admin.ts, /removeuser)\<close>

definition removeuser_handler :: "Context \<Rightarrow> Db \<Rightarrow> Outcome" where
  "removeuser_handler ctx db =
     (case ctx_messageText ctx of
        None \<Rightarrow> finish db []
      | Some txt \<Rightarrow>
          (let args = split (CHR '' '') txt;
               userId = at_index args 1
           in if \<not> truthy userId then finish db [Reply Usage_removeuser []]
              else
                (case parseInt (the userId) of
                   None \<Rightarrow> finish db [Reply Invalid_user_ID []]
                 | Some i \<Rightarrow>
                     (case findUserById i db of
                        Inl e \<Rightarrow>
                          finish db [ConsoleError ''[Admin] Error removing user:'' (Some e),
                                     Reply Error_removing_user []]
                      | Inr None \<Rightarrow> finish db [Reply (User_with_ID_not_found i) []]
                      | Inr (Some user) \<Rightarrow>
                          (case deleteUser i db of
                             Inl e \<Rightarrow>
                               finish db [ConsoleError ''[Admin] Error removing user:'' (Some e),
                                          Reply Error_removing_user []]
                           | Inr db' \<Rightarrow>
                               finish db'
                                 [Reply (User_has_been_removed
                                           (with_username (u_name user) (u_username user)) i) []])))))"

definition removeuser_command :: "string \<Rightarrow> Context \<Rightarrow> Db \<Rightarrow> Outcome" where
  "removeuser_command admin ctx db = adminOnly admin ctx db removeuser_handler"

section \<open>Admin panel, second form (src/bot/handlers/admin.ts, callbacks)\<close>

definition APPROVE_USER :: string where "APPROVE_USER = ''admin_approve_user''"
definition REJECT_USER :: string where "REJECT_USER = ''admin_reject_user''"
definition REMOVE_USER :: string where "REMOVE_USER = ''admin_remove_user''"
definition ADD_USER :: string where "ADD_USER = ''admin_add_user''"
definition SHOW_USERS :: string where "SHOW_USERS = ''admin_show_users''"
definition SHOW_MAIN_MENU :: string where "SHOW_MAIN_MENU = ''admin_show_main_menu''"
definition CANCEL_ADD :: string where "CANCEL_ADD = ''admin_cancel_add''"

definition buildAdminMainMenuKeyboard :: "Button list list" where
  "buildAdminMainMenuKeyboard =
     [[\<lparr> b_text = Users_fa, b_callback_data = SHOW_USERS \<rparr>],
      [\<lparr> b_text = Add_user_fa, b_callback_data = ADD_USER \<rparr>]]"

definition buildCancelKeyboard :: "Button list list" where
  "buildCancelKeyboard = [[\<lparr> b_text = Cancel_fa, b_callback_data = CANCEL_ADD \<rparr>]]"

text \<open>\<^verbatim>\<open>buildUserActionKeyboard(userId: number, status: string)\<close>: the status is any string.\<close>

definition buildUserActionKeyboard :: "int \<Rightarrow> string \<Rightarrow> Button list" where
  "buildUserActionKeyboard userId status =
     (let keyboard = [];
          keyboard = (if status \<noteq> status_text ALLOWED
                      then keyboard @ [\<lparr> b_text = Approve_fa,
                                          b_callback_data = APPROVE_USER @ '':'' @ toString userId \<rparr>]
                      else keyboard);
          keyboard = (if status \<noteq> status_text REJECTED
                      then keyboard @ [\<lparr> b_text = Reject_fa,
                                          b_callback_data = REJECT_USER @ '':'' @ toString userId \<rparr>]
                      else keyboard)
      in keyboard @ [\<lparr> b_text = Remove_fa,
                        b_callback_data = REMOVE_USER @ '':'' @ toString userId \<rparr>])"

text \<open>The action a button asks for: the part of its callback data before the colon.\<close>

definition button_action :: "Button \<Rightarrow> string" where
  "button_action b = takeWhile (\<lambda>c. c \<noteq> CHR '':'') (b_callback_data b)"

datatype Step = Step_telegram_id | Step_name

record PendingInput =
  pi_step :: Step
  pi_telegramId :: "string option"

record AdminOutcome = Outcome +
  adminPendingInputs :: "(string \<times> PendingInput) list"

definition admin_handleApproveUser :: "nat \<Rightarrow> int \<Rightarrow> Db \<Rightarrow> Outcome" where
  "admin_handleApproveUser now userId db =
     (case findUserById userId db of
        Inl e \<Rightarrow> throw db [] e
      | Inr None \<Rightarrow> finish db [Reply User_not_found_fa []]
      | Inr (Some user) \<Rightarrow>
          (case updateUserStatus userId ALLOWED now db of
             Inl e \<Rightarrow> throw db [] e
           | Inr (_, db') \<Rightarrow>
               finish db'
                 [EditMessageText
                    (User_approved_fa (with_username (u_name user) (u_username user))
                                      (u_telegramId user)) []]))"

definition admin_handleRejectUser :: "nat \<Rightarrow> int \<Rightarrow> Db \<Rightarrow> Outcome" where
  "admin_handleRejectUser now userId db =
     (case findUserById userId db of
        Inl e \<Rightarrow> throw db [] e
      | Inr None \<Rightarrow> finish db [Reply User_not_found_fa []]
      | Inr (Some user) \<Rightarrow>
          (case updateUserStatus userId REJECTED now db of
             Inl e \<Rightarrow> throw db [] e
           | Inr (_, db') \<Rightarrow>
               finish db'
                 [EditMessageText
                    (User_rejected_fa (with_username (u_name user) (u_username user))
                                      (u_telegramId user)) []]))"

definition handleRemoveUser :: "int \<Rightarrow> Db \<Rightarrow> Outcome" where
  "handleRemoveUser userId db =
     (case findUserById userId db of
        Inl e \<Rightarrow> throw db [] e
      | Inr None \<Rightarrow> finish db [Reply User_not_found_fa []]
      | Inr (Some user) \<Rightarrow>
          (case deleteUser userId db of
             Inl e \<Rightarrow> throw db [] e
           | Inr db' \<Rightarrow>
               finish db'
                 [EditMessageText
                    (User_removed_fa (with_username (u_name user) (u_username user))
                                     (u_telegramId user)) []]))"

text \<open>The list view: one line per user, then one info row and the action rows per user.\<close>

fun chunks2 :: "'a list \<Rightarrow> 'a list list" where
  "chunks2 [] = []"
| "chunks2 [x] = [[x]]"
| "chunks2 (x # y # r) = [x, y] # chunks2 r"

definition user_line :: "ManagedUser \<Rightarrow> string \<times> string" where
  "user_line u = (with_username (u_name u) (u_username u), u_telegramId u)"

definition user_rows :: "ManagedUser \<Rightarrow> Button list list" where
  "user_rows u =
     [\<lparr> b_text = User_info (u_status u) (with_username (u_name u) (u_username u)),
        b_callback_data = ''admin_user_info:'' @ toString (u_id u) \<rparr>]
     # chunks2 (buildUserActionKeyboard (u_id u) (status_text (u_status u)))"

definition show_users :: "Db \<Rightarrow> Outcome" where
  "show_users db =
     (case getAllUsersGroupedByStatus db of
        Inl e \<Rightarrow> throw db [] e
      | Inr grouped \<Rightarrow>
          finish db
            [EditMessageText
               (Users_list_fa (map user_line (keyed grouped ''allowed''))
                              (map user_line (keyed grouped ''pending''))
                              (map user_line (keyed grouped ''rejected'')))
               (concat (map user_rows (keyed grouped ''pending'' @ keyed grouped ''allowed''
                                        @ keyed grouped ''rejected''))
                @ [[\<lparr> b_text = Back_fa, b_callback_data = SHOW_MAIN_MENU \<rparr>]])])"

definition admin_finish :: "Outcome \<Rightarrow> (string \<times> PendingInput) list \<Rightarrow> AdminOutcome" where
  "admin_finish r pend =
     \<lparr> store = store r, effects = effects r, thrown = thrown r, adminPendingInputs = pend \<rparr>"

text \<open>The handler of \<^verbatim>\<open>bot.callbackQuery(/^admin_/, ...)\<close>.\<close>

definition admin_callbackQuery ::
  "string \<Rightarrow> nat \<Rightarrow> Context \<Rightarrow> Db \<Rightarrow> (string \<times> PendingInput) list \<Rightarrow> AdminOutcome" where
  "admin_callbackQuery admin now ctx db pend =
     (if \<not> truthy (ctx_callbackData ctx) \<or> take 6 (the (ctx_callbackData ctx)) \<noteq> ''admin_''
      then admin_finish (finish db []) pend
      else if getUserTelegramId ctx \<noteq> Some admin
      then admin_finish (finish db [AnswerCallbackQuery (Some Unauthorized) True]) pend
      else
        (let userId = admin;
             parts = split (CHR '':'') (the (ctx_callbackData ctx));
             action = at_index parts 0;
             idStr = at_index parts 1;
             ack = AnswerCallbackQuery None False
         in if action = Some CANCEL_ADD
            then admin_finish
                   (finish db [ack, EditMessageText Panel_cancelled buildAdminMainMenuKeyboard])
                   (if userId \<noteq> [] then AList.delete userId pend else pend)
            else if action = Some SHOW_MAIN_MENU
            then admin_finish
                   (finish db [ack, EditMessageText Panel_main buildAdminMainMenuKeyboard]) pend
            else if action = Some ADD_USER
            then admin_finish
                   (finish db [ack, EditMessageText Add_user_prompt buildCancelKeyboard])
                   (if userId \<noteq> []
                    then AList.update userId \<lparr> pi_step = Step_telegram_id, pi_telegramId = None \<rparr> pend
                    else pend)
            else
              (case (if truthy idStr then parseInt (the idStr) else None) of
                 None \<Rightarrow> admin_finish (finish db [ack, Reply Invalid_id_fa []]) pend
               | Some i \<Rightarrow>
                   (let r = (if action = Some SHOW_USERS then show_users db
                             else if action = Some APPROVE_USER then admin_handleApproveUser now i db
                             else if action = Some REJECT_USER then admin_handleRejectUser now i db
                             else if action = Some REMOVE_USER then handleRemoveUser i db
                             else finish db [])
                    in case thrown r of
                         None \<Rightarrow> admin_finish (finish (store r) (ack # effects r)) pend
                       | Some e \<Rightarrow>
                           admin_finish
                             (finish (store r)
                                (ack # effects r
                                 @ [ConsoleError ''[Admin] Error handling callback:'' (Some e),
                                    Reply Error_processing_request_reply []]))
                             pend))))"


section \<open>The job scheduler\<close>

text \<open>Modelled from the spec: the scheduler's runner (\<^verbatim>\<open>src/scheduler/runner.ts\<close> and
  \<^verbatim>\<open>index.ts\<close>) is missing from the sources; only the \<^verbatim>\<open>job\<close> table of schema.ts and
  the scheduler's README are there. The tick below follows section 4.4 of the
  specification. The executor is injected; it either returns (\<open>True\<close>) or throws
  (\<open>False\<close>). Every write to the job store is recorded, in order.\<close>

datatype job_write = Update_status int JobStatus nat | Delete_row int

text \<open>Modelled from the spec: the selection of step 1, all jobs with status pending and
  \<^verbatim>\<open>dueAt <= now\<close> (the runner's query is missing from the sources). The selected jobs
  come in table order; the specification leaves their order open.\<close>

definition find_due :: "nat \<Rightarrow> Job list \<Rightarrow> Job list" where
  "find_due now jobs = filter (\<lambda>j. j_status j = JOB_PENDING \<and> j_dueAt j \<le> now) jobs"

text \<open>Modelled from the spec: the job store's update-status, which sets the status and
  \<^verbatim>\<open>executedAt = now\<close> of the row with that id (the runner's write is missing from the sources).\<close>

definition update_status :: "int \<Rightarrow> JobStatus \<Rightarrow> nat \<Rightarrow> Job list \<Rightarrow> Job list" where
  "update_status i st now jobs =
     map (\<lambda>j. if j_id j = i then j\<lparr> j_status := st, j_executedAt := Some now \<rparr> else j) jobs"

text \<open>Modelled from the spec: the job store's delete of the row with that id (the runner's
  write is missing from the sources).\<close>

definition delete_job :: "int \<Rightarrow> Job list \<Rightarrow> Job list" where
  "delete_job i jobs = filter (\<lambda>j. j_id j \<noteq> i) jobs"

text \<open>Modelled from the spec: steps 2 to 4 for one selected job (the runner's loop body is
  missing from the sources). On success the row is marked completed and then deleted;
  on failure it is marked failed and kept.\<close>

definition run_job ::
  "(Job \<Rightarrow> bool) \<Rightarrow> nat \<Rightarrow> Job \<Rightarrow> Job list \<times> job_write list \<Rightarrow> Job list \<times> job_write list" where
  "run_job executor now j s =
     (case s of (jobs, writes) \<Rightarrow>
        if executor j
        then (delete_job (j_id j) (update_status (j_id j) JOB_COMPLETED now jobs),
              writes @ [Update_status (j_id j) JOB_COMPLETED now, Delete_row (j_id j)])
        else (update_status (j_id j) JOB_FAILED now jobs,
              writes @ [Update_status (j_id j) JOB_FAILED now]))"

text \<open>Modelled from the spec: one tick, which selects the due jobs and runs each of them in
  turn, whatever became of the ones before (the runner's tick is missing from the sources).\<close>

definition tick :: "(Job \<Rightarrow> bool) \<Rightarrow> nat \<Rightarrow> Job list \<Rightarrow> Job list \<times> job_write list" where
  "tick executor now jobs = fold (run_job executor now) (find_due now jobs) (jobs, [])"

section \<open>Concrete stores and updates\<close>

definition alice :: ManagedUser where
  "alice = \<lparr> u_id = 1, u_telegramId = ''101'', u_name = ''Alice'', u_username = Some ''al'',
             u_status = PENDING, u_patToken = None, u_createdAt = 5, u_updatedAt = 5 \<rparr>"

definition bob :: ManagedUser where
  "bob = \<lparr> u_id = 2, u_telegramId = ''102'', u_name = ''Bob'', u_username = None,
           u_status = ALLOWED, u_patToken = None, u_createdAt = 6, u_updatedAt = 6 \<rparr>"

definition carol :: ManagedUser where
  "carol = \<lparr> u_id = 3, u_telegramId = ''103'', u_name = ''Carol'', u_username = None,
             u_status = REJECTED, u_patToken = None, u_createdAt = 7, u_updatedAt = 8 \<rparr>"

definition team :: ManagedGroup where
  "team = \<lparr> g_id = 1, g_telegramId = ''-500'', g_title = ''Team'', g_status = ALLOWED,
            g_createdAt = 4, g_updatedAt = 4 \<rparr>"

definition db0 :: Db where
  "db0 = \<lparr> available = True, managedGroup = [team], managedUser = [alice, bob, carol],
           groupSeq = 1, userSeq = 3 \<rparr>"

definition db_down :: Db where
  "db_down = db0\<lparr> available := False \<rparr>"

text \<open>A message in the group Team from Alice, from Bob and from a stranger, and one
  from Alice in a group the store has not seen.\<close>

definition group_msg :: "int \<Rightarrow> int \<Rightarrow> string \<Rightarrow> Context" where
  "group_msg chat_id sender_id first =
     \<lparr> ctx_chat = Some \<lparr> c_id = chat_id, c_type = Group, c_title = Some ''Team'' \<rparr>,
       ctx_from = Some \<lparr> f_id = sender_id, f_first_name = first, f_username = None \<rparr>,
       ctx_callbackData = None, ctx_messageText = Some ''hello'' \<rparr>"

text \<open>A button press by the sender with that id, in a private chat.\<close>

definition press :: "int \<Rightarrow> string \<Rightarrow> Context" where
  "press sender_id d =
     \<lparr> ctx_chat = Some \<lparr> c_id = sender_id, c_type = Private, c_title = None \<rparr>,
       ctx_from = Some \<lparr> f_id = sender_id, f_first_name = ''X'', f_username = None \<rparr>,
       ctx_callbackData = Some d, ctx_messageText = None \<rparr>"

text \<open>A command typed by the sender with that id, in a private chat.\<close>

definition command :: "int \<Rightarrow> string \<Rightarrow> Context" where
  "command sender_id txt =
     \<lparr> ctx_chat = Some \<lparr> c_id = sender_id, c_type = Private, c_title = None \<rparr>,
       ctx_from = Some \<lparr> f_id = sender_id, f_first_name = ''X'', f_username = None \<rparr>,
       ctx_callbackData = None, ctx_messageText = Some txt \<rparr>"

definition job1 :: Job where
  "job1 = \<lparr> j_id = 1, j_description = ''offday reminder'', j_payload = None, j_dueAt = 10,
            j_executedAt = None, j_status = JOB_PENDING, j_createdAt = 1 \<rparr>"

definition job2 :: Job where
  "job2 = \<lparr> j_id = 2, j_description = ''custom notification'', j_payload = None, j_dueAt = 20,
            j_executedAt = None, j_status = JOB_PENDING, j_createdAt = 2 \<rparr>"

definition job3 :: Job where
  "job3 = \<lparr> j_id = 3, j_description = ''later'', j_payload = None, j_dueAt = 90,
            j_executedAt = None, j_status = JOB_PENDING, j_createdAt = 3 \<rparr>"

text \<open>An executor that throws on job 1 and returns on every other job.\<close>

definition fails_on_1 :: "Job \<Rightarrow> bool" where
  "fails_on_1 j = (j_id j \<noteq> 1)"


section \<open>Properties of a run\<close>

text \<open>The second store has the rows of the first, unchanged and in place, and after them
  only rows whose status is pending.\<close>

abbreviation only_adds_pending :: "Db \<Rightarrow> Db \<Rightarrow> bool" where
  "only_adds_pending db db' \<equiv>
     (\<exists>newG newU. managedGroup db' = managedGroup db @ newG
                 \<and> managedUser db' = managedUser db @ newU
                 \<and> (\<forall>g \<in> set newG. g_status g = PENDING)
                 \<and> (\<forall>u \<in> set newU. u_status u = PENDING))"

section \<open>Grouping the user table by status\<close>

lemma fold_group_step:
  "fold group_step xs [(''allowed'', A), (''pending'', P), (''rejected'', R)] =
     [(''allowed'', A @ filter (\<lambda>u. u_status u = ALLOWED) xs),
      (''pending'', P @ filter (\<lambda>u. u_status u = PENDING) xs),
      (''rejected'', R @ filter (\<lambda>u. u_status u = REJECTED) xs)]"
proof (induction xs arbitrary: A P R)
  case Nil
  show ?case by simp
next
  case (Cons x xs)
  show ?case
  proof (cases "u_status x")
    case PENDING
    then have "group_step x [(''allowed'', A), (''pending'', P), (''rejected'', R)]
                 = [(''allowed'', A), (''pending'', P @ [x]), (''rejected'', R)]"
      by (simp add: group_step_def push_def)
    with PENDING show ?thesis by (simp add: Cons.IH)
  next
    case ALLOWED
    then have "group_step x [(''allowed'', A), (''pending'', P), (''rejected'', R)]
                 = [(''allowed'', A @ [x]), (''pending'', P), (''rejected'', R)]"
      by (simp add: group_step_def push_def)
    with ALLOWED show ?thesis by (simp add: Cons.IH)
  next
    case REJECTED
    then have "group_step x [(''allowed'', A), (''pending'', P), (''rejected'', R)]
                 = [(''allowed'', A), (''pending'', P), (''rejected'', R @ [x])]"
      by (simp add: group_step_def push_def)
    with REJECTED show ?thesis by (simp add: Cons.IH)
  qed
qed

lemma getAllUsersGroupedByStatus_eq:
  "available db \<Longrightarrow>
   getAllUsersGroupedByStatus db =
     Inr [(''allowed'', filter (\<lambda>u. u_status u = ALLOWED)
                          (sort_key (\<lambda>u. status_rank (u_status u)) (managedUser db))),
          (''pending'', filter (\<lambda>u. u_status u = PENDING)
                          (sort_key (\<lambda>u. status_rank (u_status u)) (managedUser db))),
          (''rejected'', filter (\<lambda>u. u_status u = REJECTED)
                          (sort_key (\<lambda>u. status_rank (u_status u)) (managedUser db)))]"
  using fold_group_step [of _ "[]" "[]" "[]"]
  by (simp add: getAllUsersGroupedByStatus_def Let_def)

lemma mset_three_filters:
  "mset (filter (\<lambda>u. u_status u = ALLOWED) xs) + mset (filter (\<lambda>u. u_status u = PENDING) xs)
     + mset (filter (\<lambda>u. u_status u = REJECTED) xs) = mset xs"
proof (induction xs)
  case Nil
  show ?case by simp
next
  case (Cons x xs)
  then show ?case by (cases "u_status x") simp_all
qed

lemma keyed_three:
  "keyed [(''allowed'', A), (''pending'', P), (''rejected'', R)] ''allowed'' = A"
  "keyed [(''allowed'', A), (''pending'', P), (''rejected'', R)] ''pending'' = P"
  "keyed [(''allowed'', A), (''pending'', P), (''rejected'', R)] ''rejected'' = R"
  by (simp_all add: keyed_def)

text \<open>
  C9. Whenever the store answers, \<^verbatim>\<open>getAllUsersGroupedByStatus\<close> returns an object with
  exactly the keys allowed, pending and rejected, in that order; a stored user is in the
  list under a key exactly when the key is the text of its status; and the three lists
  together hold the rows of the table, each as often as the table does (none dropped,
  none duplicated).
\<close>

theorem grouped_users_partition:
  assumes "available db"
  shows "\<exists>grouped. getAllUsersGroupedByStatus db = Inr grouped
           \<and> map fst grouped = [''allowed'', ''pending'', ''rejected'']
           \<and> (\<forall>u \<in> set (managedUser db). \<forall>k \<in> set (map fst grouped).
                 u \<in> set (keyed grouped k) \<longleftrightarrow> k = status_text (u_status u))
           \<and> mset (keyed grouped ''allowed'') + mset (keyed grouped ''pending'')
               + mset (keyed grouped ''rejected'') = mset (managedUser db)"
proof -
  define allUsers where "allUsers = sort_key (\<lambda>u. status_rank (u_status u)) (managedUser db)"
  define A where "A = filter (\<lambda>u. u_status u = ALLOWED) allUsers"
  define P where "P = filter (\<lambda>u. u_status u = PENDING) allUsers"
  define R where "R = filter (\<lambda>u. u_status u = REJECTED) allUsers"
  define g where "g = [(''allowed'', A), (''pending'', P), (''rejected'', R)]"
  have eq: "getAllUsersGroupedByStatus db = Inr g"
    using getAllUsersGroupedByStatus_eq [OF assms]
    by (simp add: g_def A_def P_def R_def allUsers_def)
  have keys: "map fst g = [''allowed'', ''pending'', ''rejected'']"
    by (simp add: g_def)
  have sets: "set allUsers = set (managedUser db)"
    by (simp add: allUsers_def)
  have mem: "u \<in> set (keyed g k) \<longleftrightarrow> k = status_text (u_status u)"
    if "u \<in> set (managedUser db)" and "k \<in> set (map fst g)" for u k
  proof -
    from that(2) consider "k = ''allowed''" | "k = ''pending''" | "k = ''rejected''"
      unfolding keys by auto
    then show ?thesis
    proof cases
      case 1
      with that(1) sets show ?thesis
        by (cases "u_status u") (simp_all add: g_def keyed_three A_def)
    next
      case 2
      with that(1) sets show ?thesis
        by (cases "u_status u") (simp_all add: g_def keyed_three P_def)
    next
      case 3
      with that(1) sets show ?thesis
        by (cases "u_status u") (simp_all add: g_def keyed_three R_def)
    qed
  qed
  have ms: "mset (keyed g ''allowed'') + mset (keyed g ''pending'')
               + mset (keyed g ''rejected'') = mset (managedUser db)"
    using mset_three_filters [of allUsers]
    by (simp add: g_def keyed_three A_def P_def R_def allUsers_def)
  show ?thesis
  proof (intro exI conjI)
    show "getAllUsersGroupedByStatus db = Inr g" by (rule eq)
    show "map fst g = [''allowed'', ''pending'', ''rejected'']" by (rule keys)
    show "\<forall>u \<in> set (managedUser db). \<forall>k \<in> set (map fst g).
                 u \<in> set (keyed g k) \<longleftrightarrow> k = status_text (u_status u)"
      using mem by blast
    show "mset (keyed g ''allowed'') + mset (keyed g ''pending'')
               + mset (keyed g ''rejected'') = mset (managedUser db)" by (rule ms)
  qed
qed

theorem grouped_users_partition_witness:
  "available db0
   \<and> (\<exists>grouped. getAllUsersGroupedByStatus db0 = Inr grouped
           \<and> map fst grouped = [''allowed'', ''pending'', ''rejected'']
           \<and> (\<forall>u \<in> set (managedUser db0). \<forall>k \<in> set (map fst grouped).
                 u \<in> set (keyed grouped k) \<longleftrightarrow> k = status_text (u_status u))
           \<and> mset (keyed grouped ''allowed'') + mset (keyed grouped ''pending'')
               + mset (keyed grouped ''rejected'') = mset (managedUser db0))"
proof -
  have up: "available db0" by (simp add: db0_def)
  from up grouped_users_partition [OF up] show ?thesis by (rule conjI)
qed

section \<open>The per-user action keyboard\<close>

lemma button_actions_eq:
  "map button_action (buildUserActionKeyboard userId status) =
     (if status \<noteq> ''allowed'' then [APPROVE_USER] else [])
     @ (if status \<noteq> ''rejected'' then [REJECT_USER] else [])
     @ [REMOVE_USER]"
  by (simp add: buildUserActionKeyboard_def button_action_def Let_def
                APPROVE_USER_def REJECT_USER_def REMOVE_USER_def)

text \<open>
  C10. For every user id and every status string, the keyboard built for the user offers
  Approve exactly when the status is not allowed, offers Reject exactly when the status
  is not rejected, and always offers Remove: the move to the status the user already has
  is never on it.
\<close>

theorem keyboard_never_offers_current_status:
  "(APPROVE_USER \<in> set (map button_action (buildUserActionKeyboard userId status))
      \<longleftrightarrow> status \<noteq> ''allowed'')
   \<and> (REJECT_USER \<in> set (map button_action (buildUserActionKeyboard userId status))
      \<longleftrightarrow> status \<noteq> ''rejected'')
   \<and> REMOVE_USER \<in> set (map button_action (buildUserActionKeyboard userId status))"
  unfolding button_actions_eq
  by (simp add: APPROVE_USER_def REJECT_USER_def REMOVE_USER_def)

theorem keyboard_never_offers_current_status_witness:
  "APPROVE_USER \<notin> set (map button_action (buildUserActionKeyboard 7 ''allowed''))
   \<and> REJECT_USER \<in> set (map button_action (buildUserActionKeyboard 7 ''allowed''))
   \<and> REMOVE_USER \<in> set (map button_action (buildUserActionKeyboard 7 ''allowed''))"
  using keyboard_never_offers_current_status [of 7 "''allowed''"] by simp


section \<open>The access gates\<close>

lemma nat_toString_nonempty: "nat_toString n \<noteq> []"
  by (subst nat_toString.simps) simp

lemma toString_nonempty: "toString i \<noteq> []"
  by (simp add: toString_def nat_toString_nonempty)

lemma getUserTelegramId_truthy: "getUserTelegramId ctx = Some uid \<Longrightarrow> truthy (getUserTelegramId ctx) \<and> uid \<noteq> []"
  by (auto simp: getUserTelegramId_def toString_nonempty)

lemma getChatTelegramId_truthy: "chat_type ctx = Some t \<Longrightarrow> truthy (getChatTelegramId ctx)"
  by (auto simp: getChatTelegramId_def chat_type_def toString_nonempty)

lemma createUser_adds:
  "createUser nu now db = Inr (row, db') \<Longrightarrow>
     managedUser db' = managedUser db @ [row] \<and> managedGroup db' = managedGroup db
     \<and> available db' = available db
     \<and> u_status row = (case nu_status nu of None \<Rightarrow> PENDING | Some s \<Rightarrow> s)
     \<and> u_telegramId row = nu_telegramId nu"
  by (auto simp: createUser_def Let_def split: if_splits)

lemma createGroup_adds:
  "createGroup ng now db = Inr (row, db') \<Longrightarrow>
     managedGroup db' = managedGroup db @ [row] \<and> managedUser db' = managedUser db
     \<and> available db' = available db
     \<and> g_status row = (case ng_status ng of None \<Rightarrow> PENDING | Some s \<Rightarrow> s)"
  by (auto simp: createGroup_def Let_def split: if_splits)

lemma only_adds_pending_refl: "only_adds_pending db db"
  by simp

lemma triggerUserDiscovery_adds:
  "only_adds_pending db (store (triggerUserDiscovery admin now ctx userId db))"
proof (cases "createUser \<lparr> nu_telegramId = userId, nu_name = userName_of ctx,
                 nu_username = username_of ctx, nu_status = Some PENDING \<rparr> now db")
  case (Inl e)
  then show ?thesis by (simp add: triggerUserDiscovery_def Let_def finish_def)
next
  case (Inr p)
  obtain row db1 where p: "p = (row, db1)" by (cases p)
  from createUser_adds [OF Inr [unfolded p]]
  have a: "managedUser db1 = managedUser db @ [row]" "managedGroup db1 = managedGroup db"
          "u_status row = PENDING" by simp_all
  have s: "store (triggerUserDiscovery admin now ctx userId db) = db1"
    using Inr p by (simp add: triggerUserDiscovery_def Let_def finish_def)
  show ?thesis unfolding s
  proof (intro exI conjI)
    show "managedGroup db1 = managedGroup db @ []" using a by simp
    show "managedUser db1 = managedUser db @ [row]" using a by simp
    show "\<forall>g \<in> set []. g_status g = PENDING" by simp
    show "\<forall>u \<in> set [row]. u_status u = PENDING" using a by simp
  qed
qed

lemma triggerGroupDiscovery_adds:
  "only_adds_pending db (store (triggerGroupDiscovery admin now ctx chatId db))"
proof (cases "createGroup \<lparr> ng_telegramId = chatId,
         ng_title = or_default (case ctx_chat ctx of None \<Rightarrow> None | Some c \<Rightarrow> c_title c) ''Unknown Group'',
         ng_status = Some PENDING \<rparr> now db")
  case (Inl e)
  then show ?thesis by (simp add: triggerGroupDiscovery_def Let_def finish_def)
next
  case (Inr p)
  obtain grow db1 where p: "p = (grow, db1)" by (cases p)
  from createGroup_adds [OF Inr [unfolded p]]
  have a: "managedGroup db1 = managedGroup db @ [grow]" "managedUser db1 = managedUser db"
          "g_status grow = PENDING" by simp_all
  let ?cu = "createUser \<lparr> nu_telegramId = the (getUserTelegramId ctx), nu_name = userName_of ctx,
                 nu_username = username_of ctx, nu_status = Some PENDING \<rparr> now db1"
  show ?thesis
  proof (cases "truthy (getUserTelegramId ctx) \<and> (\<exists>q. ?cu = Inr q)")
    case False
    then have s: "store (triggerGroupDiscovery admin now ctx chatId db) = db1"
      using Inr p
      by (cases ?cu) (auto simp: triggerGroupDiscovery_def Let_def finish_def)
    show ?thesis unfolding s
    proof (intro exI conjI)
      show "managedGroup db1 = managedGroup db @ [grow]" using a by simp
      show "managedUser db1 = managedUser db @ []" using a by simp
      show "\<forall>g \<in> set [grow]. g_status g = PENDING" using a by simp
      show "\<forall>u \<in> set []. u_status u = PENDING" by simp
    qed
  next
    case True
    then obtain urow db2 where q: "?cu = Inr (urow, db2)" by auto
    from createUser_adds [OF q]
    have b: "managedUser db2 = managedUser db1 @ [urow]" "managedGroup db2 = managedGroup db1"
            "u_status urow = PENDING" by simp_all
    have s: "store (triggerGroupDiscovery admin now ctx chatId db) = db2"
      using Inr p q True by (simp add: triggerGroupDiscovery_def Let_def finish_def)
    show ?thesis unfolding s
    proof (intro exI conjI)
      show "managedGroup db2 = managedGroup db @ [grow]" using a b by simp
      show "managedUser db2 = managedUser db @ [urow]" using a b by simp
      show "\<forall>g \<in> set [grow]. g_status g = PENDING" using a by simp
      show "\<forall>u \<in> set [urow]. u_status u = PENDING" using b by simp
    qed
  qed
qed

lemma accessControl_part_007_store:
  "store (accessControl_part_007 admin now ctx db) = db
   \<or> (\<exists>c. store (accessControl_part_007 admin now ctx db)
           = store (triggerGroupDiscovery admin now ctx c db))
   \<or> (\<exists>i. store (accessControl_part_007 admin now ctx db)
           = store (triggerUserDiscovery admin now ctx i db))"
  by (auto simp: accessControl_part_007_def Let_def finish_def throw_def
           split: sum.splits option.splits)

lemma find_map_update:
  "find P xs = Some u \<Longrightarrow> (\<And>x. P x \<Longrightarrow> P (f x)) \<Longrightarrow>
     find P (map (\<lambda>x. if P x then f x else x) xs) = Some (f u)"
  by (induction xs) (auto split: if_splits)

lemma find_append_new:
  "find P xs = None \<Longrightarrow> P row \<Longrightarrow> find P (xs @ [row]) = Some row"
  by (induction xs) (auto split: if_splits)

lemma accessControl_sets_allowed:
  assumes up: "available db"
      and grp: "chat_type ctx = Some Group \<or> chat_type ctx = Some Supergroup"
      and uid: "getUserTelegramId ctx = Some uid"
  shows "\<exists>u'. find (\<lambda>x. u_telegramId x = uid) (managedUser (store (accessControl now ctx db))) = Some u'
              \<and> u_status u' = ALLOWED"
proof -
  from grp have np: "chat_type ctx \<noteq> Some Private" by auto
  from grp have tc: "truthy (getChatTelegramId ctx)"
    using getChatTelegramId_truthy by blast
  from uid have ne: "uid \<noteq> []"
    using getUserTelegramId_truthy by blast
  have fu: "findUserByTelegramId uid db = Inr (find (\<lambda>x. u_telegramId x = uid) (managedUser db))"
    using up by (simp add: findUserByTelegramId_def)
  show ?thesis
  proof (cases "find (\<lambda>x. u_telegramId x = uid) (managedUser db)")
    case None
    let ?nu = "\<lparr> nu_telegramId = uid, nu_name = userName_of ctx,
                 nu_username = username_of ctx, nu_status = Some ALLOWED \<rparr>"
    from None up obtain row db' where cu: "createUser ?nu now db = Inr (row, db')"
      by (auto simp: createUser_def Let_def find_None_iff)
    from createUser_adds [OF cu]
    have a: "managedUser db' = managedUser db @ [row]" "u_status row = ALLOWED"
            "u_telegramId row = uid" by simp_all
    have s: "store (accessControl now ctx db) = db'"
      using None cu fu np tc grp uid ne
      by (simp add: accessControl_def accessControl_try_def Let_def finish_def)
    show ?thesis unfolding s using a find_append_new [OF None, of row] by simp
  next
    case (Some u)
    show ?thesis
    proof (cases "u_status u = ALLOWED")
      case True
      have s: "store (accessControl now ctx db) = db"
        using Some True fu np tc grp uid ne
        by (simp add: accessControl_def accessControl_try_def Let_def finish_def)
      show ?thesis unfolding s using Some True by simp
    next
      case False
      let ?d = "\<lparr> p_name = None, p_username = None, p_status = Some ALLOWED \<rparr>"
      have s: "managedUser (store (accessControl now ctx db))
                 = map (\<lambda>x. if u_telegramId x = uid then apply_patch ?d now x else x) (managedUser db)"
        using Some False fu np tc grp uid ne up
        by (simp add: accessControl_def accessControl_try_def Let_def finish_def
                      updateUserByTelegramId_def)
      have "find (\<lambda>x. u_telegramId x = uid)
              (map (\<lambda>x. if u_telegramId x = uid then apply_patch ?d now x else x) (managedUser db))
            = Some (apply_patch ?d now u)"
        by (rule find_map_update [OF Some]) (simp add: apply_patch_def)
      then show ?thesis unfolding s by (simp add: apply_patch_def)
    qed
  qed
qed

lemma createUser_existing:
  "available db \<Longrightarrow> find (\<lambda>u. u_telegramId u = nu_telegramId nu) (managedUser db) = Some u
     \<Longrightarrow> createUser nu now db = Inl UniqueViolation"
  by (auto simp: createUser_def find_Some_iff)

lemma createGroup_fresh_users:
  "createGroup ng now db = Inr (row, db1) \<Longrightarrow> managedUser db1 = managedUser db \<and> available db1"
  by (auto simp: createGroup_def Let_def split: if_splits)

lemma triggerGroupDiscovery_known_sender:
  assumes "getUserTelegramId ctx = Some uid"
      and "find (\<lambda>u. u_telegramId u = uid) (managedUser db) = Some u"
  shows "\<exists>e. effects (triggerGroupDiscovery admin now ctx chatId db)
            = [ConsoleError ''[Group Discovery] Error:'' (Some e)]"
proof (cases "createGroup \<lparr> ng_telegramId = chatId,
         ng_title = or_default (case ctx_chat ctx of None \<Rightarrow> None | Some c \<Rightarrow> c_title c) ''Unknown Group'',
         ng_status = Some PENDING \<rparr> now db")
  case (Inl e)
  then show ?thesis by (simp add: triggerGroupDiscovery_def Let_def finish_def)
next
  case (Inr p)
  obtain row db1 where p: "p = (row, db1)" by (cases p)
  from Inr p createGroup_fresh_users have db1: "managedUser db1 = managedUser db" "available db1"
    by blast+
  have "createUser \<lparr> nu_telegramId = uid, nu_name = userName_of ctx,
                     nu_username = username_of ctx, nu_status = Some PENDING \<rparr> now db1
          = Inl UniqueViolation"
    using createUser_existing [of db1 _ u] db1 assms(2) by simp
  with Inr p assms(1) getUserTelegramId_truthy [OF assms(1)] show ?thesis
    by (simp add: triggerGroupDiscovery_def Let_def finish_def)
qed

lemma toString_101: "toString 101 = ''101''"
  by code_simp
lemma toString_104: "toString 104 = ''104''"
  by code_simp

lemma toString_m500: "toString (-500) = ''-500''"
  by code_simp

text \<open>In the gate of part_007 a group that is itself stored as pending or rejected is
  dropped before the sender is looked at.\<close>

lemma discovery_gate_drops_unapproved_group:
  assumes "chat_type ctx = Some Group \<or> chat_type ctx = Some Supergroup"
      and "available db"
      and "find (\<lambda>g. g_telegramId g = the (getChatTelegramId ctx)) (managedGroup db) = Some g"
      and "g_status g = PENDING \<or> g_status g = REJECTED"
  shows "accessControl_part_007 admin now ctx db = finish db []"
proof -
  from assms(1) have np: "chat_type ctx \<noteq> Some Private" by auto
  have tc: "truthy (getChatTelegramId ctx)"
    using assms(1) by (auto simp: getChatTelegramId_def chat_type_def toString_nonempty)
  from assms(4) have "g_status g \<noteq> ALLOWED" by auto
  with np tc assms(1,2,3) show ?thesis
    by (simp add: accessControl_part_007_def findGroupByTelegramId_def Let_def)
qed





text \<open>
  C3 (amended). The gate with discovery (part_007) leaves every stored row as it is and
  adds only rows with status pending. The gate of src/bot/middleware.ts does change
  statuses on the event path: after an update from a group or supergroup, with the store
  reachable, the sender has a row and its status is allowed (created so when the sender
  was unknown, set so when the sender was pending or rejected).
\<close>

theorem status_changes_on_event_path:
  "only_adds_pending db (store (accessControl_part_007 admin now ctx db))
   \<and> (available db \<and> (chat_type ctx = Some Group \<or> chat_type ctx = Some Supergroup)
        \<and> getUserTelegramId ctx = Some uid
      \<longrightarrow> (\<exists>u'. find (\<lambda>x. u_telegramId x = uid)
                    (managedUser (store (accessControl now ctx db))) = Some u'
                \<and> u_status u' = ALLOWED))"
proof (rule conjI)
  show "only_adds_pending db (store (accessControl_part_007 admin now ctx db))"
  proof -
    consider "store (accessControl_part_007 admin now ctx db) = db"
      | c where "store (accessControl_part_007 admin now ctx db)
                   = store (triggerGroupDiscovery admin now ctx c db)"
      | i where "store (accessControl_part_007 admin now ctx db)
                   = store (triggerUserDiscovery admin now ctx i db)"
      using accessControl_part_007_store by blast
    then show ?thesis
    proof cases
      case 1
      show ?thesis unfolding 1 by (rule only_adds_pending_refl)
    next
      case 2
      show ?thesis unfolding 2 by (rule triggerGroupDiscovery_adds)
    next
      case 3
      show ?thesis unfolding 3 by (rule triggerUserDiscovery_adds)
    qed
  qed
  show "available db \<and> (chat_type ctx = Some Group \<or> chat_type ctx = Some Supergroup)
        \<and> getUserTelegramId ctx = Some uid
      \<longrightarrow> (\<exists>u'. find (\<lambda>x. u_telegramId x = uid)
                    (managedUser (store (accessControl now ctx db))) = Some u'
                \<and> u_status u' = ALLOWED)"
    using accessControl_sets_allowed by blast
qed

theorem status_changes_on_event_path_witness:
  "(available db0
      \<and> (chat_type (group_msg (-500) 104 ''Dan'') = Some Group
           \<or> chat_type (group_msg (-500) 104 ''Dan'') = Some Supergroup)
      \<and> getUserTelegramId (group_msg (-500) 104 ''Dan'') = Some ''104'')
   \<and> (\<exists>u'. find (\<lambda>x. u_telegramId x = ''104'')
              (managedUser (store (accessControl 50 (group_msg (-500) 104 ''Dan'') db0))) = Some u'
           \<and> u_status u' = ALLOWED)
   \<and> only_adds_pending db0 (store (accessControl_part_007 ''999'' 50 (group_msg (-500) 104 ''Dan'') db0))"
proof -
  have h: "available db0
      \<and> (chat_type (group_msg (-500) 104 ''Dan'') = Some Group
           \<or> chat_type (group_msg (-500) 104 ''Dan'') = Some Supergroup)
      \<and> getUserTelegramId (group_msg (-500) 104 ''Dan'') = Some ''104''"
    by (simp add: db0_def chat_type_def getUserTelegramId_def group_msg_def toString_104)
  from h status_changes_on_event_path
         [where db = db0 and admin = "''999''" and now = 50
            and ctx = "group_msg (-500) 104 ''Dan''" and uid = "''104''"]
  show ?thesis by blast
qed

text \<open>
  The claim as stated fails on src/bot/middleware.ts: the row created for the unknown
  sender Dan has status allowed, and a message from Alice turns her stored status from
  pending into allowed.
\<close>

theorem gate_creates_allowed_counterexample:
  "managedUser (store (accessControl 50 (group_msg (-500) 104 ''Dan'') db0))
     = [alice, bob, carol,
        \<lparr> u_id = 4, u_telegramId = ''104'', u_name = ''Dan'', u_username = None,
          u_status = ALLOWED, u_patToken = None, u_createdAt = 50, u_updatedAt = 50 \<rparr>]
   \<and> map u_status (managedUser db0) = [PENDING, ALLOWED, REJECTED]
   \<and> map u_status (managedUser (store (accessControl 50 (group_msg (-500) 101 ''Alice'') db0)))
     = [ALLOWED, ALLOWED, REJECTED]"
  by code_simp

text \<open>
  C4 (amended). When the store cannot be reached, the gate of src/bot/middleware.ts logs
  the error of the sender lookup and then forwards the update of a group or supergroup to
  the handlers after it; the store is left as it was.
\<close>

theorem gate_fails_open:
  assumes "\<not> available db"
      and "chat_type ctx = Some Group \<or> chat_type ctx = Some Supergroup"
      and "getUserTelegramId ctx = Some uid"
  shows "accessControl now ctx db
           = finish db [ConsoleError ''[AccessControl] Error:'' (Some StoreUnavailable), Next]"
proof -
  from assms(2) have np: "chat_type ctx \<noteq> Some Private" by auto
  from assms(2) have tc: "truthy (getChatTelegramId ctx)"
    using getChatTelegramId_truthy by blast
  from assms(3) have ne: "uid \<noteq> []"
    using getUserTelegramId_truthy by blast
  have "accessControl_try now ctx (Some uid) db = Inl StoreUnavailable"
    using assms(1) ne by (simp add: accessControl_try_def findUserByTelegramId_def)
  with np tc assms(2,3) show ?thesis
    by (simp add: accessControl_def Let_def)
qed

theorem gate_fails_open_witness:
  "\<not> available db_down
   \<and> (chat_type (group_msg (-500) 101 ''Alice'') = Some Group
        \<or> chat_type (group_msg (-500) 101 ''Alice'') = Some Supergroup)
   \<and> getUserTelegramId (group_msg (-500) 101 ''Alice'') = Some ''101''
   \<and> accessControl 50 (group_msg (-500) 101 ''Alice'') db_down
        = finish db_down [ConsoleError ''[AccessControl] Error:'' (Some StoreUnavailable), Next]"
proof -
  have h1: "\<not> available db_down" by (simp add: db_down_def)
  have h2: "chat_type (group_msg (-500) 101 ''Alice'') = Some Group
        \<or> chat_type (group_msg (-500) 101 ''Alice'') = Some Supergroup"
    by (simp add: chat_type_def group_msg_def)
  have h3: "getUserTelegramId (group_msg (-500) 101 ''Alice'') = Some ''101''"
    by (simp add: getUserTelegramId_def group_msg_def toString_101)
  from gate_fails_open [OF h1 h2 h3, of 50] h1 h2 h3 show ?thesis by blast
qed

text \<open>
  The claim as stated fails: with the store down, Alice's message in the group Team is
  logged as an error and forwarded.
\<close>

theorem gate_forwards_on_lookup_error_counterexample:
  "findUserByTelegramId ''101'' db_down = Inl StoreUnavailable
   \<and> effects (accessControl 50 (group_msg (-500) 101 ''Alice'') db_down)
       = [ConsoleError ''[AccessControl] Error:'' (Some StoreUnavailable), Next]"
  by code_simp

section \<open>Approval callbacks and who may press them\<close>

text \<open>
  C5. When the sender of a button press is not the designated operator, the handler of the
  approve and reject buttons (discovery.ts) and the handler of the admin panel buttons
  (admin.ts: approve, reject, remove and the rest) each answer the press with the
  Unauthorized alert and nothing else, and leave the store (and the pending admin inputs)
  exactly as they were.
\<close>

theorem non_operator_is_refused:
  assumes "getUserTelegramId ctx \<noteq> Some admin"
      and "discovery_route d1"
      and "d2 \<noteq> [] \<and> take 6 d2 = ''admin_''"
  shows "setupDiscoveryHandlers admin now (ctx\<lparr> ctx_callbackData := Some d1 \<rparr>) db
           = finish db [AnswerCallbackQuery (Some Unauthorized) True]
       \<and> admin_callbackQuery admin now (ctx\<lparr> ctx_callbackData := Some d2 \<rparr>) db pend
           = admin_finish (finish db [AnswerCallbackQuery (Some Unauthorized) True]) pend"
  using assms
  by (simp add: setupDiscoveryHandlers_def admin_callbackQuery_def getUserTelegramId_def)

theorem non_operator_is_refused_witness:
  "getUserTelegramId (press 998 ''x'') \<noteq> Some ''999''
   \<and> discovery_route ''approve_user:101''
   \<and> (''admin_remove_user:2'' \<noteq> [] \<and> take 6 ''admin_remove_user:2'' = ''admin_'')
   \<and> store (setupDiscoveryHandlers ''999'' 50 (press 998 ''approve_user:101'') db0) = db0
   \<and> effects (setupDiscoveryHandlers ''999'' 50 (press 998 ''approve_user:101'') db0)
        = [AnswerCallbackQuery (Some Unauthorized) True]
   \<and> store (admin_callbackQuery ''999'' 50 (press 998 ''admin_remove_user:2'') db0 []) = db0
   \<and> effects (admin_callbackQuery ''999'' 50 (press 998 ''admin_remove_user:2'') db0 [])
        = [AnswerCallbackQuery (Some Unauthorized) True]"
proof -
  have h1: "getUserTelegramId (press 998 ''x'') \<noteq> Some ''999''" by code_simp
  have h2: "discovery_route ''approve_user:101''" by code_simp
  have h3: "''admin_remove_user:2'' \<noteq> [] \<and> take 6 ''admin_remove_user:2'' = ''admin_''" by simp
  have e1: "(press 998 ''x'')\<lparr> ctx_callbackData := Some ''approve_user:101'' \<rparr> = press 998 ''approve_user:101''"
    by (simp add: press_def)
  have e2: "(press 998 ''x'')\<lparr> ctx_callbackData := Some ''admin_remove_user:2'' \<rparr> = press 998 ''admin_remove_user:2''"
    by (simp add: press_def)
  from non_operator_is_refused [OF h1 h2 h3, where now = 50 and db = db0 and pend = "[]"] h1 h2 h3
  show ?thesis unfolding e1 e2 by (simp add: finish_def admin_finish_def)
qed

section \<open>Approving twice\<close>

lemma find_map_same_key:
  "(\<And>x. P (g x) = P x) \<Longrightarrow> find P (map g xs) = map_option g (find P xs)"
  by (induction xs) auto

lemma handleApproveUser_found:
  assumes "available db" and "find (\<lambda>x. u_telegramId x = tid) (managedUser db) = Some u"
  shows "handleApproveUser t tid db =
           finish (db\<lparr> managedUser :=
                         map (\<lambda>x. if u_id x = u_id u
                                   then x\<lparr> u_status := ALLOWED, u_updatedAt := t \<rparr> else x)
                             (managedUser db) \<rparr>)
             [EditMessageText (User_Approved (with_username (u_name u) (u_username u)) tid) [],
              AnswerCallbackQuery (Some User_approved) False]"
  using assms
  by (simp add: handleApproveUser_def findUserByTelegramId_def updateUserStatus_def Let_def)

text \<open>A press of the Approve button by the operator runs \<^verbatim>\<open>handleApproveUser\<close> on the id
  after the colon, and nothing else.\<close>

lemma split_no_sep: "c \<notin> set xs \<Longrightarrow> split c xs = [xs]"
  by (induction xs) auto

lemma split_at_first: "c \<notin> set p \<Longrightarrow> split c (p @ c # rest) = p # split c rest"
  by (induction p) auto

lemma approve_parts:
  assumes "CHR '':'' \<notin> set tid"
  shows "split (CHR '':'') (''approve_user:'' @ tid) = [''approve_user'', tid]"
proof -
  have "split (CHR '':'') (''approve_user'' @ CHR '':'' # tid) = ''approve_user'' # split (CHR '':'') tid"
    by (rule split_at_first) simp
  with split_no_sep [OF assms] show ?thesis by simp
qed

lemma operator_approve_press:
  assumes op: "getUserTelegramId ctx = Some admin"
      and d: "ctx_callbackData ctx = Some (''approve_user:'' @ tid)"
      and tid: "tid \<noteq> []" "CHR '':'' \<notin> set tid" "no_line_break tid"
      and up: "available db"
  shows "setupDiscoveryHandlers admin now ctx db = handleApproveUser now tid db"
proof -
  have route: "discovery_route (''approve_user:'' @ tid)"
    using tid by (simp add: discovery_route_def)
  have nt: "thrown (handleApproveUser now tid db) = None"
    using up
    by (simp add: handleApproveUser_def findUserByTelegramId_def updateUserStatus_def
                  finish_def Let_def split: option.splits)
  show ?thesis
    using op d route nt approve_parts [OF tid(2)]
    by (simp add: setupDiscoveryHandlers_def Let_def at_index_def)
qed

text \<open>
  C6 (amended). For a stored identity X and a reachable store, approving twice in a row
  reports success both times, and the second edit of the notification has the same
  content as the first. After each call X's status is allowed. The update is
  unconditional: each call writes the row with its own timestamp, so after the second
  call X's \<^verbatim>\<open>updatedAt\<close> is the timestamp of the second call. The store after two
  calls is the store one call at the second timestamp would leave; it agrees with the
  store after the first call in everything but \<^verbatim>\<open>updatedAt\<close>, and it is equal to
  it exactly when the two calls write the same timestamp (the column keeps whole
  seconds, and the times here are the values written).
\<close>

theorem approve_twice:
  assumes up: "available db"
      and row: "find (\<lambda>x. u_telegramId x = tid) (managedUser db) = Some u"
  shows "effects (handleApproveUser t1 tid db)
           = [EditMessageText (User_Approved (with_username (u_name u) (u_username u)) tid) [],
              AnswerCallbackQuery (Some User_approved) False]
       \<and> effects (handleApproveUser t2 tid (store (handleApproveUser t1 tid db)))
           = effects (handleApproveUser t1 tid db)
       \<and> store (handleApproveUser t1 tid db)
           = db\<lparr> managedUser :=
                   map (\<lambda>x. if u_id x = u_id u
                             then x\<lparr> u_status := ALLOWED, u_updatedAt := t1 \<rparr> else x)
                       (managedUser db) \<rparr>
       \<and> store (handleApproveUser t2 tid (store (handleApproveUser t1 tid db)))
           = db\<lparr> managedUser :=
                   map (\<lambda>x. if u_id x = u_id u
                             then x\<lparr> u_status := ALLOWED, u_updatedAt := t2 \<rparr> else x)
                       (managedUser db) \<rparr>
       \<and> find (\<lambda>x. u_telegramId x = tid) (managedUser (store (handleApproveUser t1 tid db)))
           = Some (u\<lparr> u_status := ALLOWED, u_updatedAt := t1 \<rparr>)
       \<and> find (\<lambda>x. u_telegramId x = tid)
            (managedUser (store (handleApproveUser t2 tid (store (handleApproveUser t1 tid db)))))
           = Some (u\<lparr> u_status := ALLOWED, u_updatedAt := t2 \<rparr>)
       \<and> store (handleApproveUser t2 tid (store (handleApproveUser t1 tid db)))
           = store (handleApproveUser t2 tid db)
       \<and> map (\<lambda>x. x\<lparr> u_updatedAt := 0 \<rparr>)
             (managedUser (store (handleApproveUser t2 tid (store (handleApproveUser t1 tid db)))))
           = map (\<lambda>x. x\<lparr> u_updatedAt := 0 \<rparr>)
               (managedUser (store (handleApproveUser t1 tid db)))
       \<and> (store (handleApproveUser t2 tid (store (handleApproveUser t1 tid db)))
              = store (handleApproveUser t1 tid db)) = (t1 = t2)"
proof -
  let ?upd = "\<lambda>t x. if u_id x = u_id u then x\<lparr> u_status := ALLOWED, u_updatedAt := t \<rparr> else x"
  let ?db1 = "db\<lparr> managedUser := map (?upd t1) (managedUser db) \<rparr>"
  let ?db2 = "db\<lparr> managedUser := map (?upd t2) (managedUser db) \<rparr>"
  let ?es = "[EditMessageText (User_Approved (with_username (u_name u) (u_username u)) tid) [],
              AnswerCallbackQuery (Some User_approved) False]"
  have r1: "handleApproveUser t1 tid db = finish ?db1 ?es"
    by (rule handleApproveUser_found [OF up row])
  have r2': "handleApproveUser t2 tid db = finish ?db2 ?es"
    by (rule handleApproveUser_found [OF up row])
  have up1: "available ?db1" using up by simp
  have fm: "find (\<lambda>x. u_telegramId x = tid) (map (?upd t) (managedUser db))
          = map_option (?upd t) (find (\<lambda>x. u_telegramId x = tid) (managedUser db))" for t
    by (rule find_map_same_key) simp
  have row1: "find (\<lambda>x. u_telegramId x = tid) (managedUser ?db1) = Some (?upd t1 u)"
    using fm [of t1] row by simp
  have r2: "handleApproveUser t2 tid ?db1 =
              finish (?db1\<lparr> managedUser := map (?upd t2) (managedUser ?db1) \<rparr>) ?es"
    using handleApproveUser_found [OF up1 row1, of t2] by simp
  have comp: "map (?upd t2) (map (?upd t1) xs) = map (?upd t2) xs" for xs
    by (induction xs) auto
  have strip: "map (\<lambda>x. x\<lparr> u_updatedAt := 0 \<rparr>) (map (?upd t2) xs)
                 = map (\<lambda>x. x\<lparr> u_updatedAt := 0 \<rparr>) (map (?upd t1) xs)" for xs
    by (induction xs) auto
  have s1: "store (handleApproveUser t1 tid db) = ?db1"
    and e1: "effects (handleApproveUser t1 tid db) = ?es"
    unfolding r1 by (simp_all add: finish_def)
  have s2: "store (handleApproveUser t2 tid ?db1) = ?db2"
    and e2: "effects (handleApproveUser t2 tid ?db1) = ?es"
    unfolding r2 using comp [of "managedUser db"] by (simp_all add: finish_def)
  have s2': "store (handleApproveUser t2 tid db) = ?db2"
    unfolding r2' by (simp add: finish_def)
  have c1: "effects (handleApproveUser t1 tid db) = ?es" by (rule e1)
  have c2: "effects (handleApproveUser t2 tid (store (handleApproveUser t1 tid db)))
              = effects (handleApproveUser t1 tid db)"
    unfolding s1 e1 e2 ..
  have c3: "store (handleApproveUser t1 tid db) = ?db1" by (rule s1)
  have c4: "store (handleApproveUser t2 tid (store (handleApproveUser t1 tid db))) = ?db2"
    unfolding s1 by (rule s2)
  have c5: "find (\<lambda>x. u_telegramId x = tid) (managedUser (store (handleApproveUser t1 tid db)))
              = Some (u\<lparr> u_status := ALLOWED, u_updatedAt := t1 \<rparr>)"
    unfolding s1 using fm [of t1] row by simp
  have c6: "find (\<lambda>x. u_telegramId x = tid)
              (managedUser (store (handleApproveUser t2 tid (store (handleApproveUser t1 tid db)))))
              = Some (u\<lparr> u_status := ALLOWED, u_updatedAt := t2 \<rparr>)"
    unfolding s1 s2 using fm [of t2] row by simp
  have c7: "store (handleApproveUser t2 tid (store (handleApproveUser t1 tid db)))
              = store (handleApproveUser t2 tid db)"
    unfolding s1 s2 s2' ..
  have c8: "map (\<lambda>x. x\<lparr> u_updatedAt := 0 \<rparr>)
             (managedUser (store (handleApproveUser t2 tid (store (handleApproveUser t1 tid db)))))
           = map (\<lambda>x. x\<lparr> u_updatedAt := 0 \<rparr>)
               (managedUser (store (handleApproveUser t1 tid db)))"
    unfolding s1 s2 using strip [of "managedUser db"] by simp
  have c9: "(store (handleApproveUser t2 tid (store (handleApproveUser t1 tid db)))
              = store (handleApproveUser t1 tid db)) = (t1 = t2)"
  proof
    assume "store (handleApproveUser t2 tid (store (handleApproveUser t1 tid db)))
              = store (handleApproveUser t1 tid db)"
    with c5 c6 have "u\<lparr> u_status := ALLOWED, u_updatedAt := t2 \<rparr>
                       = u\<lparr> u_status := ALLOWED, u_updatedAt := t1 \<rparr>" by simp
    then have "u_updatedAt (u\<lparr> u_status := ALLOWED, u_updatedAt := t2 \<rparr>)
                 = u_updatedAt (u\<lparr> u_status := ALLOWED, u_updatedAt := t1 \<rparr>)" by (rule arg_cong)
    then show "t1 = t2" by simp
  next
    assume "t1 = t2"
    then show "store (handleApproveUser t2 tid (store (handleApproveUser t1 tid db)))
              = store (handleApproveUser t1 tid db)"
      unfolding s1 s2 by simp
  qed
  from c1 c2 c3 c4 c5 c6 c7 c8 c9 show ?thesis by (intro conjI)
qed

theorem approve_twice_witness:
  "available db0 \<and> find (\<lambda>x. u_telegramId x = ''101'') (managedUser db0) = Some alice
   \<and> effects (handleApproveUser 50 ''101'' db0)
       = [EditMessageText (User_Approved ''Alice (@al)'' ''101'') [],
          AnswerCallbackQuery (Some User_approved) False]
   \<and> effects (handleApproveUser 51 ''101'' (store (handleApproveUser 50 ''101'' db0)))
       = effects (handleApproveUser 50 ''101'' db0)
   \<and> find (\<lambda>x. u_telegramId x = ''101'') (managedUser (store (handleApproveUser 50 ''101'' db0)))
       = Some (alice\<lparr> u_status := ALLOWED, u_updatedAt := 50 \<rparr>)
   \<and> find (\<lambda>x. u_telegramId x = ''101'')
        (managedUser (store (handleApproveUser 51 ''101'' (store (handleApproveUser 50 ''101'' db0)))))
       = Some (alice\<lparr> u_status := ALLOWED, u_updatedAt := 51 \<rparr>)
   \<and> store (handleApproveUser 51 ''101'' (store (handleApproveUser 50 ''101'' db0)))
       = store (handleApproveUser 51 ''101'' db0)
   \<and> store (handleApproveUser 51 ''101'' (store (handleApproveUser 50 ''101'' db0)))
       \<noteq> store (handleApproveUser 50 ''101'' db0)"
proof -
  have h1: "available db0" by (simp add: db0_def)
  have h2: "find (\<lambda>x. u_telegramId x = ''101'') (managedUser db0) = Some alice"
    by (simp add: db0_def alice_def)
  have n: "with_username (u_name alice) (u_username alice) = ''Alice (@al)''"
    by (simp add: with_username_def alice_def)
  have ne: "(50::nat) \<noteq> 51" by simp
  from approve_twice [OF h1 h2, of 50 51] h1 h2 ne show ?thesis
    unfolding n by blast
qed

text \<open>
  The claim as stated fails: approving Alice at time 50 and again at time 51 leaves a
  store that differs from the one after the first call (her \<^verbatim>\<open>updatedAt\<close> is 51, not 50).
\<close>

theorem approve_twice_counterexample:
  "map u_updatedAt (managedUser (store (handleApproveUser 50 ''101'' db0))) = [50, 6, 8]
   \<and> map u_updatedAt
        (managedUser (store (handleApproveUser 51 ''101'' (store (handleApproveUser 50 ''101'' db0)))))
       = [51, 6, 8]
   \<and> store (handleApproveUser 51 ''101'' (store (handleApproveUser 50 ''101'' db0)))
       \<noteq> store (handleApproveUser 50 ''101'' db0)"
  by code_simp

section \<open>Removing a user\<close>

lemma filter_remove1:
  "distinct (map f xs) \<Longrightarrow> find (\<lambda>x. f x = i) xs = Some u
     \<Longrightarrow> filter (\<lambda>x. f x \<noteq> i) xs = remove1 u xs"
proof (induction xs)
  case Nil
  then show ?case by simp
next
  case (Cons x xs)
  show ?case
  proof (cases "f x = i")
    case True
    with Cons.prems have ux: "u = x" by simp
    from Cons.prems(1) have "f x \<notin> f ` set xs" by simp
    with True have "\<forall>y \<in> set xs. f y \<noteq> i" by (metis imageI)
    then have "filter (\<lambda>x. f x \<noteq> i) xs = xs" by (simp add: filter_id_conv)
    with True ux show ?thesis by simp
  next
    case False
    with Cons.prems have f: "find (\<lambda>x. f x = i) xs = Some u" by simp
    then have "f u = i" by (auto simp: find_Some_iff)
    with False have "x \<noteq> u" by auto
    with False Cons.IH [OF _ f] Cons.prems(1) show ?thesis by simp
  qed
qed

text \<open>
  C7 (amended). With the store reachable and ids unique (the primary key), removing by
  id, from the admin panel button and from the /removeuser command typed by the operator
  in a private chat, does this: when no row has the id, the store is unchanged and the
  operator is told that the user was not found; when a row has it, exactly that row is
  deleted and the removal is confirmed.
\<close>

theorem remove_user:
  assumes up: "available db"
      and pk: "distinct (map u_id (managedUser db))"
      and op: "chat_type ctx = Some Private" "isAdmin admin ctx"
      and msg: "ctx_messageText ctx = Some m"
      and arg: "at_index (split (CHR '' '') m) 1 = Some a" "a \<noteq> []" "parseInt a = Some i"
  shows "handleRemoveUser i db =
           (case find (\<lambda>x. u_id x = i) (managedUser db) of
              None \<Rightarrow> finish db [Reply User_not_found_fa []]
            | Some u \<Rightarrow>
                finish (db\<lparr> managedUser := remove1 u (managedUser db) \<rparr>)
                  [EditMessageText
                     (User_removed_fa (with_username (u_name u) (u_username u)) (u_telegramId u)) []])
       \<and> removeuser_command admin ctx db =
           (case find (\<lambda>x. u_id x = i) (managedUser db) of
              None \<Rightarrow> finish db [Reply (User_with_ID_not_found i) []]
            | Some u \<Rightarrow>
                finish (db\<lparr> managedUser := remove1 u (managedUser db) \<rparr>)
                  [Reply (User_has_been_removed (with_username (u_name u) (u_username u)) i) []])"
proof (cases "find (\<lambda>x. u_id x = i) (managedUser db)")
  case None
  with up op msg arg show ?thesis
    by (simp add: handleRemoveUser_def removeuser_command_def adminOnly_def
                  removeuser_handler_def findUserById_def Let_def)
next
  case (Some u)
  from filter_remove1 [OF pk Some]
  have "filter (\<lambda>x. u_id x \<noteq> i) (managedUser db) = remove1 u (managedUser db)" .
  with Some up op msg arg show ?thesis
    by (simp add: handleRemoveUser_def removeuser_command_def adminOnly_def
                  removeuser_handler_def findUserById_def deleteUser_def Let_def)
qed

theorem remove_user_witness:
  "(available db0 \<and> distinct (map u_id (managedUser db0))
      \<and> chat_type (command 999 ''/removeuser 2'') = Some Private
      \<and> isAdmin ''999'' (command 999 ''/removeuser 2'')
      \<and> at_index (split (CHR '' '') ''/removeuser 2'') 1 = Some ''2'' \<and> parseInt ''2'' = Some 2)
   \<and> handleRemoveUser 2 db0
        = finish (db0\<lparr> managedUser := [alice, carol] \<rparr>)
            [EditMessageText (User_removed_fa ''Bob'' ''102'') []]
   \<and> removeuser_command ''999'' (command 999 ''/removeuser 2'') db0
        = finish (db0\<lparr> managedUser := [alice, carol] \<rparr>)
            [Reply (User_has_been_removed ''Bob'' 2) []]
   \<and> handleRemoveUser 9 db0 = finish db0 [Reply User_not_found_fa []]
   \<and> removeuser_command ''999'' (command 999 ''/removeuser 9'') db0
        = finish db0 [Reply (User_with_ID_not_found 9) []]"
proof -
  have up: "available db0" by (simp add: db0_def)
  have pk: "distinct (map u_id (managedUser db0))"
    by (simp add: db0_def alice_def bob_def carol_def)
  have p2: "chat_type (command 999 ''/removeuser 2'') = Some Private"
    and p9: "chat_type (command 999 ''/removeuser 9'') = Some Private"
    by (simp_all add: chat_type_def command_def)
  have a2: "isAdmin ''999'' (command 999 ''/removeuser 2'')"
    and a9: "isAdmin ''999'' (command 999 ''/removeuser 9'')"
    by code_simp+
  have m2: "ctx_messageText (command 999 ''/removeuser 2'') = Some ''/removeuser 2''"
    and m9: "ctx_messageText (command 999 ''/removeuser 9'') = Some ''/removeuser 9''"
    by (simp_all add: command_def)
  have s2: "at_index (split (CHR '' '') ''/removeuser 2'') 1 = Some ''2''"
    and s9: "at_index (split (CHR '' '') ''/removeuser 9'') 1 = Some ''9''"
    by code_simp+
  have n2: "''2'' \<noteq> []" and n9: "''9'' \<noteq> []" by simp_all
  have i2: "parseInt ''2'' = Some 2" and i9: "parseInt ''9'' = Some 9"
    by code_simp+
  have f2: "find (\<lambda>x. u_id x = 2) (managedUser db0) = Some bob"
    and f9: "find (\<lambda>x. u_id x = 9) (managedUser db0) = None"
    by (simp_all add: db0_def alice_def bob_def carol_def)
  have r2: "remove1 bob (managedUser db0) = [alice, carol]"
    by (simp add: db0_def alice_def bob_def carol_def)
  have nb: "with_username (u_name bob) (u_username bob) = ''Bob''" "u_telegramId bob = ''102''"
    by (simp_all add: with_username_def bob_def)
  from remove_user [OF up pk p2 a2 m2 s2 n2 i2]
  have present: "handleRemoveUser 2 db0
        = finish (db0\<lparr> managedUser := [alice, carol] \<rparr>)
            [EditMessageText (User_removed_fa ''Bob'' ''102'') []]
      \<and> removeuser_command ''999'' (command 999 ''/removeuser 2'') db0
        = finish (db0\<lparr> managedUser := [alice, carol] \<rparr>)
            [Reply (User_has_been_removed ''Bob'' 2) []]"
    unfolding f2 by (simp add: r2 nb)
  from remove_user [OF up pk p9 a9 m9 s9 n9 i9]
  have absent: "handleRemoveUser 9 db0 = finish db0 [Reply User_not_found_fa []]
      \<and> removeuser_command ''999'' (command 999 ''/removeuser 9'') db0
        = finish db0 [Reply (User_with_ID_not_found 9) []]"
    unfolding f9 by simp
  from up pk p2 a2 s2 i2 present absent show ?thesis by blast
qed

text \<open>
  The claim as stated fails: removing the absent id 9 is not reported as a success but
  as "not found", by both handlers.
\<close>

theorem remove_absent_counterexample:
  "findUserById 9 db0 = Inr None
   \<and> handleRemoveUser 9 db0 = finish db0 [Reply User_not_found_fa []]
   \<and> removeuser_command ''999'' (command 999 ''/removeuser 9'') db0
       = finish db0 [Reply (User_with_ID_not_found 9) []]"
  by code_simp

section \<open>Discovery of a new identity\<close>

text \<open>
  The user flow does treat a duplicate insert as already created: the first run of
  \<^verbatim>\<open>triggerUserDiscovery\<close> for an unknown sender adds one pending row and sends one
  request to the operator; a second run for the same sender hits the uniqueness
  constraint, logs it, changes nothing and sends nothing.
\<close>

lemma triggerUserDiscovery_duplicate:
  assumes up: "available db" and adm: "admin \<noteq> []"
      and new: "find (\<lambda>x. u_telegramId x = uid) (managedUser db) = None"
  shows "\<exists>row. managedUser (store (triggerUserDiscovery admin t1 ctx uid db)) = managedUser db @ [row]
           \<and> u_telegramId row = uid \<and> u_status row = PENDING
           \<and> effects (triggerUserDiscovery admin t1 ctx uid db)
               = [SendMessage admin (New_User_Request (userName_of ctx) (username_of ctx) uid)
                    [[\<lparr> b_text = Approve_label, b_callback_data = ''approve_user:'' @ uid \<rparr>,
                      \<lparr> b_text = Reject_label, b_callback_data = ''reject_user:'' @ uid \<rparr>]]]
           \<and> triggerUserDiscovery admin t2 ctx' uid (store (triggerUserDiscovery admin t1 ctx uid db))
               = finish (store (triggerUserDiscovery admin t1 ctx uid db))
                   [ConsoleError ''[User Discovery] Error:'' (Some UniqueViolation)]"
proof -
  let ?nu = "\<lparr> nu_telegramId = uid, nu_name = userName_of ctx,
               nu_username = username_of ctx, nu_status = Some PENDING \<rparr>"
  from new up obtain row db1 where cu: "createUser ?nu t1 db = Inr (row, db1)"
    by (auto simp: createUser_def Let_def find_None_iff)
  from createUser_adds [OF cu]
  have a: "managedUser db1 = managedUser db @ [row]" "available db1 = available db"
          "u_status row = PENDING" "u_telegramId row = uid" by simp_all
  have r1: "triggerUserDiscovery admin t1 ctx uid db
              = finish db1 [SendMessage admin (New_User_Request (userName_of ctx) (username_of ctx) uid)
                    [[\<lparr> b_text = Approve_label, b_callback_data = ''approve_user:'' @ uid \<rparr>,
                      \<lparr> b_text = Reject_label, b_callback_data = ''reject_user:'' @ uid \<rparr>]]]"
    using cu adm by (simp add: triggerUserDiscovery_def Let_def)
  have "\<exists>x \<in> set (managedUser db1). u_telegramId x = uid" using a by simp
  then have cu2: "createUser \<lparr> nu_telegramId = uid, nu_name = userName_of ctx',
               nu_username = username_of ctx', nu_status = Some PENDING \<rparr> t2 db1 = Inl UniqueViolation"
    using a up by (simp add: createUser_def)
  have r2: "triggerUserDiscovery admin t2 ctx' uid db1
              = finish db1 [ConsoleError ''[User Discovery] Error:'' (Some UniqueViolation)]"
    using cu2 by (simp add: triggerUserDiscovery_def Let_def)
  show ?thesis
    unfolding r1 using a r2 by (simp add: finish_def)
qed

text \<open>
  C2. The group flow (part_007) misses a case: when the group is unknown but its sender is
  already stored, \<^verbatim>\<open>triggerGroupDiscovery\<close> inserts the pending group row, then the
  insert of the sender throws the uniqueness violation, and the shared \<^verbatim>\<open>catch\<close> ends
  the flow before the operator is notified. Two simultaneous events from the unknown
  group -600, sent by Alice, leave one new group row and no notification at all; later
  events from the group are dropped, since it is now stored as pending.
\<close>

theorem group_discovery_known_sender_no_notification:
  "findGroupByTelegramId ''-600'' db0 = Inr None
   \<and> findUserByTelegramId ''101'' db0 = Inr (Some alice)
   \<and> effects (triggerGroupDiscovery ''999'' 50 (group_msg (-600) 101 ''Alice'') ''-600'' db0)
       = [ConsoleError ''[Group Discovery] Error:'' (Some UniqueViolation)]
   \<and> map g_telegramId
        (managedGroup (store (triggerGroupDiscovery ''999'' 50 (group_msg (-600) 101 ''Alice'') ''-600'' db0)))
       = [''-500'', ''-600'']
   \<and> effects (triggerGroupDiscovery ''999'' 50 (group_msg (-600) 101 ''Alice'') ''-600''
                (store (triggerGroupDiscovery ''999'' 50 (group_msg (-600) 101 ''Alice'') ''-600'' db0)))
       = [ConsoleError ''[Group Discovery] Error:'' (Some UniqueViolation)]
   \<and> map g_telegramId
        (managedGroup (store (triggerGroupDiscovery ''999'' 50 (group_msg (-600) 101 ''Alice'') ''-600''
                (store (triggerGroupDiscovery ''999'' 50 (group_msg (-600) 101 ''Alice'') ''-600'' db0)))))
       = [''-500'', ''-600'']
   \<and> effects (accessControl_part_007 ''999'' 50 (group_msg (-600) 101 ''Alice'') db0)
       = [ConsoleError ''[Group Discovery] Error:'' (Some UniqueViolation)]
   \<and> effects (accessControl_part_007 ''999'' 51 (group_msg (-600) 101 ''Alice'')
                (store (accessControl_part_007 ''999'' 50 (group_msg (-600) 101 ''Alice'') db0)))
       = []"
  by code_simp

section \<open>The scheduler tick\<close>

lemma run_job_keeps_other:
  "j_id k \<noteq> j_id r \<Longrightarrow> r \<in> set (fst s) \<Longrightarrow> r \<in> set (fst (run_job ex now k s))"
  by (cases s) (auto simp: run_job_def update_status_def delete_job_def)

lemma run_job_no_new_ids:
  "\<forall>r \<in> set (fst s). j_id r \<noteq> i \<Longrightarrow> \<forall>r \<in> set (fst (run_job ex now k s)). j_id r \<noteq> i"
  by (cases s) (auto simp: run_job_def update_status_def delete_job_def)

lemma fold_keeps_other:
  "\<forall>k \<in> set ks. j_id k \<noteq> j_id r \<Longrightarrow> r \<in> set (fst s)
     \<Longrightarrow> r \<in> set (fst (fold (run_job ex now) ks s))"
  by (induction ks arbitrary: s) (simp_all add: run_job_keeps_other)

lemma fold_no_new_ids:
  "\<forall>r \<in> set (fst s). j_id r \<noteq> i
     \<Longrightarrow> \<forall>r \<in> set (fst (fold (run_job ex now) ks s)). j_id r \<noteq> i"
proof (induction ks arbitrary: s)
  case Nil
  then show ?case by simp
next
  case (Cons k ks)
  from run_job_no_new_ids [OF Cons.prems]
  have "\<forall>r \<in> set (fst (run_job ex now k s)). j_id r \<noteq> i" .
  from Cons.IH [OF this] show ?case by simp
qed

lemma run_job_writes:
  "snd (run_job ex now k s) =
     snd s @ (if ex k then [Update_status (j_id k) JOB_COMPLETED now, Delete_row (j_id k)]
              else [Update_status (j_id k) JOB_FAILED now])"
  by (cases s) (simp add: run_job_def)

lemma fold_writes:
  "snd (fold (run_job ex now) ks s) =
     snd s @ concat (map (\<lambda>j. if ex j
                               then [Update_status (j_id j) JOB_COMPLETED now, Delete_row (j_id j)]
                               else [Update_status (j_id j) JOB_FAILED now]) ks)"
proof (induction ks arbitrary: s)
  case Nil
  show ?case by simp
next
  case (Cons k ks)
  have "snd (fold (run_job ex now) (k # ks) s) = snd (fold (run_job ex now) ks (run_job ex now k s))"
    by simp
  also have "\<dots> = snd (run_job ex now k s) @ concat (map (\<lambda>j. if ex j
                               then [Update_status (j_id j) JOB_COMPLETED now, Delete_row (j_id j)]
                               else [Update_status (j_id j) JOB_FAILED now]) ks)"
    by (rule Cons.IH)
  finally show ?case by (simp add: run_job_writes)
qed

lemma no_delete_of_other:
  "\<forall>k \<in> set ks. j_id k \<noteq> i \<Longrightarrow>
     Delete_row i \<notin> set (concat (map (\<lambda>j. if ex j
                               then [Update_status (j_id j) JOB_COMPLETED now, Delete_row (j_id j)]
                               else [Update_status (j_id j) JOB_FAILED now]) ks))"
  by (induction ks) auto

text \<open>
  C8. In the tick written from section 4.4 of the specification, with unique job ids,
  every job selected as due is finalized. If its executor returns, the row is marked
  completed with \<^verbatim>\<open>executedAt = now\<close>, the next write deletes it, and no row with its id
  is left. If its executor throws, the row is in the store after the tick with status
  failed and \<^verbatim>\<open>executedAt = now\<close>, and it is never deleted. Both hold wherever the job
  stands among the selected ones, so the tick goes on after a failure.
\<close>

theorem tick_finalizes_each_due_job:
  assumes pk: "distinct (map j_id jobs)" and due: "j \<in> set (find_due now jobs)"
  shows "(executor j \<longrightarrow>
            (\<forall>r \<in> set (fst (tick executor now jobs)). j_id r \<noteq> j_id j)
          \<and> (\<exists>before after. snd (tick executor now jobs)
                = before @ [Update_status (j_id j) JOB_COMPLETED now, Delete_row (j_id j)] @ after))
       \<and> (\<not> executor j \<longrightarrow>
            j\<lparr> j_status := JOB_FAILED, j_executedAt := Some now \<rparr> \<in> set (fst (tick executor now jobs))
          \<and> Update_status (j_id j) JOB_FAILED now \<in> set (snd (tick executor now jobs))
          \<and> Delete_row (j_id j) \<notin> set (snd (tick executor now jobs)))"
proof -
  let ?w = "\<lambda>j. if executor j
                 then [Update_status (j_id j) JOB_COMPLETED now, Delete_row (j_id j)]
                 else [Update_status (j_id j) JOB_FAILED now]"
  from due obtain pre post where sel: "find_due now jobs = pre @ j # post"
    by (auto dest: split_list)
  have "distinct (map j_id (find_due now jobs))"
    unfolding find_due_def using pk by (rule distinct_map_filter)
  then have "j_id j \<notin> j_id ` set pre" "j_id j \<notin> j_id ` set post"
    unfolding sel by auto
  then have others: "\<forall>k \<in> set pre. j_id k \<noteq> j_id j" "\<forall>k \<in> set post. j_id k \<noteq> j_id j"
    by (metis imageI)+
  from due have inj: "j \<in> set jobs" by (simp add: find_due_def)
  define s1 where "s1 = fold (run_job executor now) pre (jobs, [])"
  define s2 where "s2 = run_job executor now j s1"
  have t: "tick executor now jobs = fold (run_job executor now) post s2"
    by (simp add: tick_def sel s1_def s2_def)
  have j1: "j \<in> set (fst s1)"
    unfolding s1_def by (rule fold_keeps_other [OF others(1)]) (simp add: inj)
  have w: "snd (tick executor now jobs) = concat (map ?w pre) @ ?w j @ concat (map ?w post)"
    using fold_writes [of executor now "pre @ j # post" "(jobs, [])"]
    by (simp add: tick_def sel)
  show ?thesis
  proof (intro conjI impI)
    assume ok: "executor j"
    then have "fst s2 = delete_job (j_id j) (update_status (j_id j) JOB_COMPLETED now (fst s1))"
      by (cases s1) (simp add: s2_def run_job_def)
    then have "\<forall>r \<in> set (fst s2). j_id r \<noteq> j_id j"
      by (simp add: delete_job_def)
    then show "\<forall>r \<in> set (fst (tick executor now jobs)). j_id r \<noteq> j_id j"
      unfolding t by (rule fold_no_new_ids)
    from ok w show "\<exists>before after. snd (tick executor now jobs)
                = before @ [Update_status (j_id j) JOB_COMPLETED now, Delete_row (j_id j)] @ after"
      by auto
  next
    assume bad: "\<not> executor j"
    then have "fst s2 = update_status (j_id j) JOB_FAILED now (fst s1)"
      by (cases s1) (simp add: s2_def run_job_def)
    with j1 have "j\<lparr> j_status := JOB_FAILED, j_executedAt := Some now \<rparr> \<in> set (fst s2)"
      by (force simp: update_status_def)
    then show "j\<lparr> j_status := JOB_FAILED, j_executedAt := Some now \<rparr>
                 \<in> set (fst (tick executor now jobs))"
      unfolding t by (rule fold_keeps_other [rotated]) (use others(2) in simp)
    from bad w show "Update_status (j_id j) JOB_FAILED now \<in> set (snd (tick executor now jobs))"
      by simp
    from bad w no_delete_of_other [OF others(1), of executor now]
         no_delete_of_other [OF others(2), of executor now]
    show "Delete_row (j_id j) \<notin> set (snd (tick executor now jobs))"
      by simp
  qed
qed

theorem tick_finalizes_each_due_job_witness:
  "(distinct (map j_id [job1, job2, job3])
      \<and> job1 \<in> set (find_due 30 [job1, job2, job3])
      \<and> job2 \<in> set (find_due 30 [job1, job2, job3])
      \<and> \<not> fails_on_1 job1 \<and> fails_on_1 job2)
   \<and> job1\<lparr> j_status := JOB_FAILED, j_executedAt := Some 30 \<rparr>
        \<in> set (fst (tick fails_on_1 30 [job1, job2, job3]))
   \<and> Delete_row (j_id job1) \<notin> set (snd (tick fails_on_1 30 [job1, job2, job3]))
   \<and> j_id job2 \<notin> j_id ` set (fst (tick fails_on_1 30 [job1, job2, job3]))
   \<and> (\<exists>before after. snd (tick fails_on_1 30 [job1, job2, job3])
          = before @ [Update_status (j_id job2) JOB_COMPLETED 30, Delete_row (j_id job2)] @ after)"
proof -
  have pk: "distinct (map j_id [job1, job2, job3])"
    by (simp add: job1_def job2_def job3_def)
  have d1: "job1 \<in> set (find_due 30 [job1, job2, job3])"
    and d2: "job2 \<in> set (find_due 30 [job1, job2, job3])"
    by (simp_all add: find_due_def job1_def job2_def job3_def)
  have e1: "\<not> fails_on_1 job1" and e2: "fails_on_1 job2"
    by (simp_all add: fails_on_1_def job1_def job2_def)
  from tick_finalizes_each_due_job [OF pk d1, of fails_on_1] e1
  have a: "job1\<lparr> j_status := JOB_FAILED, j_executedAt := Some 30 \<rparr>
             \<in> set (fst (tick fails_on_1 30 [job1, job2, job3]))"
          "Delete_row (j_id job1) \<notin> set (snd (tick fails_on_1 30 [job1, job2, job3]))"
    by blast+
  from tick_finalizes_each_due_job [OF pk d2, of fails_on_1] e2
  have b0: "\<forall>r \<in> set (fst (tick fails_on_1 30 [job1, job2, job3])). j_id r \<noteq> j_id job2"
    and c: "\<exists>before after. snd (tick fails_on_1 30 [job1, job2, job3])
          = before @ [Update_status (j_id job2) JOB_COMPLETED 30, Delete_row (j_id job2)] @ after"
    by blast+
  from b0 have b: "j_id job2 \<notin> j_id ` set (fst (tick fails_on_1 30 [job1, job2, job3]))"
    by (metis imageE)
  from pk d1 d2 e1 e2 a b c show ?thesis by (intro conjI)
qed

end
